(* ===== verification/Prelude.thy ===== *)
theory Prelude
  imports Main "HOL-Library.Word"
begin

text \<open>
  Shared vocabulary of the development.
  \<^item> Rust \<open>String\<close>/\<open>&str\<close> values are lists of characters \<open>'c list\<close>, one element per
    Unicode scalar value (\<open>str::chars\<close>); byte offsets into a string are replaced by
    character offsets.
  \<^item> The \<open>unicode_width\<close> crate is an external library.  It enters the model only through
    its interface \<open>UnicodeWidthChar::width :: char \<Rightarrow> Option<usize>\<close>, a parameter
    \<open>cw :: 'c width_fn\<close> of every operation that measures text.  \<open>char_width\<close> is the
    source's \<open>ch.width().unwrap_or(0)\<close>, and \<open>str_width\<close> is \<open>UnicodeWidthStr::width\<close>
    as the crate computes it for text without grapheme clusters: the sum of the character
    widths, control characters counting 0.
  \<^item> \<open>u16\<close> is ratatui's coordinate type; \<open>usize\<close> is \<open>nat\<close>, whose subtraction is
    Rust's \<open>saturating_sub\<close>.
  \<^item> \<open>nth_opt\<close> is Rust's \<open>Iterator::nth\<close>: \<open>None\<close> past the end.
  \<^item> \<open>demo_width\<close> is a small width table on code points, used only by the concrete
    instances (witnesses and examples) of the other theories.
\<close>

named_theorems width_simps "equations evaluating text widths"
named_theorems model_eval "equations that evaluate the model on concrete inputs"

type_synonym u16 = "16 word"

type_synonym 'c width_fn = "'c \<Rightarrow> nat option"

definition char_width :: "'c width_fn \<Rightarrow> 'c \<Rightarrow> nat" where
  "char_width cw ch = (case cw ch of None \<Rightarrow> 0 | Some n \<Rightarrow> n)"

definition str_width :: "'c width_fn \<Rightarrow> 'c list \<Rightarrow> nat" where
  "str_width cw s = sum_list (map (char_width cw) s)"

fun nth_opt :: "'a list \<Rightarrow> nat \<Rightarrow> 'a option" where
  "nth_opt [] n = None"
| "nth_opt (x # xs) 0 = Some x"
| "nth_opt (x # xs) (Suc n) = nth_opt xs n"

definition demo_width :: "nat \<Rightarrow> nat option" where
  "demo_width c =
     (if c < 32 \<or> (127 \<le> c \<and> c < 160) then None
      else if 768 \<le> c \<and> c < 880 then Some 0
      else if (4352 \<le> c \<and> c < 4448) \<or> (11904 \<le> c \<and> c < 42192)
              \<or> (44032 \<le> c \<and> c < 55204) \<or> (65280 \<le> c \<and> c < 65377) then Some 2
      else Some 1)"

abbreviation ascii :: "string \<Rightarrow> nat list" where
  "ascii s \<equiv> map of_char s"

subsection \<open>Lemmas on widths\<close>

lemma str_width_Nil [simp, width_simps]: "str_width cw [] = 0"
  by (simp add: str_width_def)

lemma str_width_Cons [simp, width_simps]:
  "str_width cw (c # s) = char_width cw c + str_width cw s"
  by (simp add: str_width_def)

lemma str_width_append [simp, width_simps]:
  "str_width cw (s @ t) = str_width cw s + str_width cw t"
  by (simp add: str_width_def)

lemma str_width_take_le: "str_width cw (take n s) \<le> str_width cw s"
  by (metis str_width_append append_take_drop_id le_add1)

lemma str_width_concat:
  "str_width cw (concat ls) = sum_list (map (str_width cw) ls)"
  by (induction ls) auto

lemma char_width_le_one_iff:
  "char_width cw c \<le> 1 \<longleftrightarrow> (cw c = None \<or> cw c = Some 0 \<or> cw c = Some 1)"
  by (auto simp: char_width_def split: option.splits)

lemma char_width_demo [width_simps, model_eval]:
  "char_width demo_width c =
     (if c < 32 \<or> (127 \<le> c \<and> c < 160) then 0
      else if 768 \<le> c \<and> c < 880 then 0
      else if (4352 \<le> c \<and> c < 4448) \<or> (11904 \<le> c \<and> c < 42192)
              \<or> (44032 \<le> c \<and> c < 55204) \<or> (65280 \<le> c \<and> c < 65377) then 2
      else 1)"
  by (simp add: char_width_def demo_width_def)

subsection \<open>Lemmas on \<open>nth_opt\<close> and lists\<close>

lemma nth_opt_conv: "nth_opt xs n = (if n < length xs then Some (xs ! n) else None)"
  by (induction xs n rule: nth_opt.induct) auto

lemma sum_list_le_mult:
  "(\<And>x. x \<in> set xs \<Longrightarrow> f x \<le> (k::nat)) \<Longrightarrow> sum_list (map f xs) \<le> length xs * k"
  by (induction xs) fastforce+

lemma sum_list_gaps:
  "(\<And>l. l \<in> set ls \<Longrightarrow> f l \<le> (w::nat)) \<Longrightarrow>
   sum_list (map f ls) + sum_list (map (\<lambda>l. w - f l) ls) = length ls * w"
  by (induction ls) fastforce+

lemma div_le_of_le_mult: "(a::nat) \<le> k * w \<Longrightarrow> a div w \<le> k"
  by (metis div_le_mono mult.commute nonzero_mult_div_cancel_left div_by_0 le_0_eq mult_zero_left
      zero_le)

lemma div_mod_decomp:
  assumes "(a::nat) < w"
  shows "(r * w + a) div w = r" and "(r * w + a) mod w = a"
  using assms by (simp_all add: div_mult_self3 [symmetric] add.commute)

end
