(* ===== verification/Wrap.thy ===== *)
theory Wrap
  imports Prelude
begin

text \<open>
  The Wrapper: \<open>wrap_line\<close> of \<^verbatim>\<open>src/src/ui/terminal.rs\<close> (lines 13--39).  The three
  mutable locals of the loop (\<open>result\<close>, \<open>current_line\<close>, \<open>current_width\<close>) form the
  record \<open>wrap_state\<close>; one iteration of \<open>for ch in line.chars()\<close> is \<open>wrap_step\<close>;
  the loop is a \<open>fold\<close> over the characters.  The lemmas show that wrapping loses and
  reorders nothing (concatenation gives back the line), that every visual line fits the
  width unless it is a single character wider than the width, that every break is forced
  (the next character would not have fitted), and how the degenerate cases behave,
  including the empty first line the loop emits when the first character alone is wider
  than the width.  The last group shows that the loop computes the recursive reference
  \<open>greedy_lines\<close> and that this is the only decomposition satisfying the contract
  \<open>wrap_contract\<close>, and that text of one-column characters is cut into chunks of the width,
  which locates every character.
\<close>

record 'c wrap_state =
  result :: "'c list list"
  current_line :: "'c list"
  current_width :: nat

definition wrap_init :: "'c wrap_state" where
  "wrap_init = \<lparr>result = [], current_line = [], current_width = 0\<rparr>"

definition wrap_step :: "'c width_fn \<Rightarrow> nat \<Rightarrow> 'c \<Rightarrow> 'c wrap_state \<Rightarrow> 'c wrap_state" where
  "wrap_step cw width ch st =
     (let char_w = char_width cw ch;
          st1 = (if current_width st + char_w > width
                 then st\<lparr>result := result st @ [current_line st], current_line := [],
                         current_width := 0\<rparr>
                 else st)
      in st1\<lparr>current_line := current_line st1 @ [ch],
             current_width := current_width st1 + char_w\<rparr>)"

definition wrap_line :: "'c width_fn \<Rightarrow> 'c list \<Rightarrow> nat \<Rightarrow> 'c list list" where
  "wrap_line cw line width =
     (if width = 0 then [[]]
      else let st = fold (wrap_step cw width) line wrap_init
           in result st @ [current_line st])"

text \<open>What a visual line may be: no wider than the width, or one overflowing character.\<close>

definition line_fits :: "'c width_fn \<Rightarrow> nat \<Rightarrow> 'c list \<Rightarrow> bool" where
  "line_fits cw width l =
     (str_width cw l \<le> width \<or> (case l of [c] \<Rightarrow> width < char_width cw c | _ \<Rightarrow> False))"

text \<open>
  Every break between two consecutive visual lines is forced: the next line is not empty
  and its first character would have made the previous line too wide.
\<close>

fun breaks_forced :: "'c width_fn \<Rightarrow> nat \<Rightarrow> 'c list list \<Rightarrow> bool" where
  "breaks_forced cw width (l1 # l2 # ls) =
     ((case l2 of [] \<Rightarrow> False | c # _ \<Rightarrow> width < str_width cw l1 + char_width cw c)
      \<and> breaks_forced cw width (l2 # ls))"
| "breaks_forced cw width ls = True"

text \<open>
  A reference for the Wrapper's contract (section 4.1 of the specification), written as a
  recursion instead of a loop: extend the current line while the next character fits,
  close it otherwise, and never close an empty line.
\<close>

fun greedy_from :: "'c width_fn \<Rightarrow> nat \<Rightarrow> 'c list \<Rightarrow> 'c list \<Rightarrow> 'c list list" where
  "greedy_from cw width cur [] = [cur]"
| "greedy_from cw width cur (c # cs) =
     (if cur \<noteq> [] \<and> width < str_width cw cur + char_width cw c
      then cur # greedy_from cw width [c] cs
      else greedy_from cw width (cur @ [c]) cs)"

definition greedy_lines :: "'c width_fn \<Rightarrow> nat \<Rightarrow> 'c list \<Rightarrow> 'c list list" where
  "greedy_lines cw width line = greedy_from cw width [] line"

text \<open>
  The Wrapper's contract (section 4.1 of the specification) as a predicate on a
  decomposition of a line: non-empty, complete, every line fits, every break forced, and
  no empty first line unless the line itself is empty.
\<close>

definition wrap_contract :: "'c width_fn \<Rightarrow> nat \<Rightarrow> 'c list \<Rightarrow> 'c list list \<Rightarrow> bool" where
  "wrap_contract cw width line ls \<longleftrightarrow>
     ls \<noteq> [] \<and> concat ls = line \<and> list_all (line_fits cw width) ls
     \<and> breaks_forced cw width ls \<and> (hd ls = [] \<longrightarrow> line = [])"

text \<open>
  A reference for text of one-column characters: cutting a list into chunks of \<open>w\<close>
  elements.  The recursion is on \<open>drop w xs\<close>, so it terminates by the length.
\<close>

function chunks :: "nat \<Rightarrow> 'a list \<Rightarrow> 'a list list" where
  "chunks w xs = (if w = 0 \<or> length xs \<le> w then [xs] else take w xs # chunks w (drop w xs))"
  by pat_completeness auto
termination
  by (relation "measure (\<lambda>(w, xs). length xs)") auto

text \<open>The loop invariant: the width counter measures the current line, and all lines fit.\<close>

definition wrap_inv :: "'c width_fn \<Rightarrow> nat \<Rightarrow> 'c wrap_state \<Rightarrow> bool" where
  "wrap_inv cw width st \<longleftrightarrow>
     current_width st = str_width cw (current_line st)
     \<and> list_all (line_fits cw width) (result st)
     \<and> line_fits cw width (current_line st)
     \<and> breaks_forced cw width (result st @ [current_line st])
     \<and> (result st \<noteq> [] \<longrightarrow> current_line st \<noteq> [])"

lemmas wrap_defs = wrap_step_def wrap_init_def Let_def

subsection \<open>Completeness: nothing is dropped, duplicated or reordered\<close>

lemma wrap_step_chars:
  "concat (result (wrap_step cw w ch st)) @ current_line (wrap_step cw w ch st)
   = concat (result st) @ current_line st @ [ch]"
  by (simp add: wrap_defs)

lemma wrap_fold_chars:
  "concat (result (fold (wrap_step cw w) xs st)) @ current_line (fold (wrap_step cw w) xs st)
   = concat (result st) @ current_line st @ xs"
  by (induction xs arbitrary: st) (simp_all add: wrap_step_chars)

lemma concat_wrap_line:
  "concat (wrap_line cw line width) = (if width = 0 then [] else line)"
proof -
  let ?st = "fold (wrap_step cw width) line wrap_init"
  have "concat (result ?st) @ current_line ?st = line"
    using wrap_fold_chars [of cw width line wrap_init] by (simp add: wrap_init_def)
  then show ?thesis by (simp add: wrap_line_def Let_def)
qed

text \<open>
  C2.  Wrapping is complete: for a positive width, concatenating the visual lines gives
  back the logical line, with no character dropped, duplicated or reordered.
\<close>

lemma wrap_line_chars:
  assumes "0 < width"
  shows "concat (wrap_line cw line width) = line"
  using assms by (simp add: concat_wrap_line)

subsection \<open>The loop invariant\<close>

lemma breaks_forced_snoc2:
  "breaks_forced cw w (xs @ [a, b])
   \<longleftrightarrow> breaks_forced cw w (xs @ [a])
       \<and> (case b of [] \<Rightarrow> False | c # _ \<Rightarrow> w < str_width cw a + char_width cw c)"
proof (induction xs)
  case Nil
  then show ?case by simp
next
  case (Cons x xs)
  then show ?case by (cases xs) auto
qed

lemma breaks_forced_extend_last:
  "a \<noteq> [] \<Longrightarrow> breaks_forced cw w (xs @ [a @ [c]]) \<longleftrightarrow> breaks_forced cw w (xs @ [a])"
proof (induction xs)
  case Nil
  then show ?case by simp
next
  case (Cons x xs)
  then show ?case by (cases xs) (auto split: list.splits)
qed

lemma wrap_inv_init: "wrap_inv cw w wrap_init"
  by (simp add: wrap_inv_def wrap_init_def line_fits_def)

lemma wrap_inv_step:
  assumes inv: "wrap_inv cw w st"
  shows "wrap_inv cw w (wrap_step cw w ch st)"
proof (cases "current_width st + char_width cw ch > w")
  case True
  have "line_fits cw w [ch]"
    by (auto simp: line_fits_def)
  with True inv show ?thesis
    by (simp add: wrap_inv_def wrap_step_def Let_def breaks_forced_snoc2)
next
  case False
  show ?thesis
  proof (cases "current_line st = []")
    case True
    with False inv show ?thesis
      by (simp add: wrap_inv_def wrap_step_def Let_def line_fits_def)
  next
    case nonempty: False
    with False inv show ?thesis
      by (simp add: wrap_inv_def wrap_step_def Let_def line_fits_def breaks_forced_extend_last)
  qed
qed

lemma wrap_inv_fold: "wrap_inv cw w st \<Longrightarrow> wrap_inv cw w (fold (wrap_step cw w) xs st)"
  by (induction xs arbitrary: st) (simp_all add: wrap_inv_step)

lemma wrap_inv_final:
  assumes "0 < width"
  shows "wrap_line cw line width = result (fold (wrap_step cw width) line wrap_init)
           @ [current_line (fold (wrap_step cw width) line wrap_init)]"
    and "wrap_inv cw width (fold (wrap_step cw width) line wrap_init)"
  using assms by (simp_all add: wrap_line_def Let_def wrap_inv_fold wrap_inv_init)

subsection \<open>Every visual line fits, every break is forced\<close>

text \<open>
  C1.  Every visual line that \<open>wrap_line\<close> produces fits the width, except a line made
  of one single character that is by itself wider than the width.
\<close>

lemma wrap_line_fits: "list_all (line_fits cw width) (wrap_line cw line width)"
proof (cases "width = 0")
  case True
  then show ?thesis by (simp add: wrap_line_def line_fits_def)
next
  case False
  then show ?thesis
    using wrap_inv_final [of width cw line] by (simp add: wrap_inv_def)
qed

text \<open>
  C3.  The wrapping is greedy: between two consecutive visual lines the second one is
  non-empty and its first character would not have fitted on the first one.
\<close>

lemma wrap_line_breaks_forced: "breaks_forced cw width (wrap_line cw line width)"
proof (cases "width = 0")
  case True
  then show ?thesis by (simp add: wrap_line_def)
next
  case False
  then show ?thesis
    using wrap_inv_final [of width cw line] by (simp add: wrap_inv_def)
qed

lemma wrap_line_not_Nil: "wrap_line cw line width \<noteq> []"
  by (simp add: wrap_line_def Let_def)

text \<open>
  C19.  A zero width yields exactly one empty visual line, whatever the logical line.
\<close>

lemma wrap_line_zero: "wrap_line cw line 0 = [[]]"
  by (simp add: wrap_line_def)

text \<open>When no character is wider than the width, every visual line fits outright.\<close>

lemma line_fits_width:
  "list_all (\<lambda>c. char_width cw c \<le> width) l \<Longrightarrow> line_fits cw width l \<Longrightarrow> str_width cw l \<le> width"
  by (auto simp: line_fits_def split: list.splits)

lemma wrap_line_fits_narrow:
  assumes "list_all (\<lambda>c. char_width cw c \<le> width) line"
  shows "list_all (\<lambda>l. str_width cw l \<le> width) (wrap_line cw line width)"
proof (cases "width = 0")
  case True
  then show ?thesis by (simp add: wrap_line_def)
next
  case False
  have chars: "set l \<subseteq> set line" if "l \<in> set (wrap_line cw line width)" for l
  proof -
    have "set l \<subseteq> set (concat (wrap_line cw line width))" using that by auto
    then show ?thesis using concat_wrap_line [of cw line width] False by simp
  qed
  have fits: "list_all (line_fits cw width) (wrap_line cw line width)"
    using False wrap_inv_final [of width cw line] by (simp add: wrap_inv_def)
  show ?thesis
    unfolding list_all_iff
  proof
    fix l assume l: "l \<in> set (wrap_line cw line width)"
    then have "line_fits cw width l"
      using fits by (simp add: list_all_iff)
    with chars [OF l] assms show "str_width cw l \<le> width"
      by (intro line_fits_width) (auto simp: list_all_iff)
  qed
qed

lemma wrap_line_width_total:
  assumes "0 < width" and "list_all (\<lambda>c. char_width cw c \<le> width) line"
  shows "str_width cw line \<le> length (wrap_line cw line width) * width"
proof -
  have "str_width cw line = sum_list (map (str_width cw) (wrap_line cw line width))"
    using concat_wrap_line [of cw line width] assms(1) str_width_concat by (metis less_numeral_extra(3))
  also have "\<dots> \<le> length (wrap_line cw line width) * width"
    using wrap_line_fits_narrow [OF assms(2)] by (intro sum_list_le_mult) (simp add: list_all_iff)
  finally show ?thesis .
qed

text \<open>
  When no character is wider than the width, the characters consumed so far have a total
  width of at most one full row per completed line plus the current one.
\<close>

lemma wrap_fold_fits_width:
  assumes "list_all (\<lambda>c. char_width cw c \<le> w) xs"
  shows "list_all (\<lambda>l. str_width cw l \<le> w) (result (fold (wrap_step cw w) xs wrap_init))"
    and "str_width cw (current_line (fold (wrap_step cw w) xs wrap_init)) \<le> w"
proof -
  define st where "st = fold (wrap_step cw w) xs wrap_init"
  have inv: "wrap_inv cw w st" unfolding st_def by (rule wrap_inv_fold [OF wrap_inv_init])
  have chars: "concat (result st) @ current_line st = xs"
    using wrap_fold_chars [of cw w xs wrap_init] by (simp add: wrap_init_def st_def)
  have narrow: "list_all (\<lambda>c. char_width cw c \<le> w) l" if "set l \<subseteq> set xs" for l
    using that assms by (auto simp: list_all_iff)
  have sub: "set (concat (result st)) \<union> set (current_line st) \<subseteq> set xs"
    using chars by (metis set_append subset_refl)
  have "str_width cw l \<le> w" if l: "l \<in> set (result st)" for l
  proof -
    have "set l \<subseteq> set xs" using l sub by auto
    moreover have "line_fits cw w l" using inv l by (simp add: wrap_inv_def list_all_iff)
    ultimately show ?thesis by (intro line_fits_width narrow)
  qed
  then show "list_all (\<lambda>l. str_width cw l \<le> w) (result (fold (wrap_step cw w) xs wrap_init))"
    by (simp add: st_def list_all_iff)
  show "str_width cw (current_line (fold (wrap_step cw w) xs wrap_init)) \<le> w"
    using line_fits_width [OF narrow] inv sub by (auto simp: wrap_inv_def st_def)
qed

lemma wrap_fold_width_split:
  "str_width cw xs = sum_list (map (str_width cw) (result (fold (wrap_step cw w) xs wrap_init)))
                     + current_width (fold (wrap_step cw w) xs wrap_init)"
proof -
  define st where "st = fold (wrap_step cw w) xs wrap_init"
  have "concat (result st) @ current_line st = xs"
    using wrap_fold_chars [of cw w xs wrap_init] by (simp add: wrap_init_def st_def)
  moreover have "current_width st = str_width cw (current_line st)"
    using wrap_inv_fold [OF wrap_inv_init, of cw w xs] by (simp add: wrap_inv_def st_def)
  ultimately show ?thesis by (metis str_width_append str_width_concat st_def)
qed

lemma wrap_fold_width_le:
  assumes "list_all (\<lambda>c. char_width cw c \<le> w) xs"
  shows "str_width cw xs \<le> Suc (length (result (fold (wrap_step cw w) xs wrap_init))) * w"
proof -
  have "sum_list (map (str_width cw) (result (fold (wrap_step cw w) xs wrap_init)))
        \<le> length (result (fold (wrap_step cw w) xs wrap_init)) * w"
    using wrap_fold_fits_width(1) [OF assms] by (intro sum_list_le_mult) (simp add: list_all_iff)
  moreover have "current_width (fold (wrap_step cw w) xs wrap_init) \<le> w"
    using wrap_fold_fits_width(2) [OF assms] wrap_inv_fold [OF wrap_inv_init, of cw w xs]
    by (simp add: wrap_inv_def)
  ultimately show ?thesis using wrap_fold_width_split [of cw xs w] by simp
qed

text \<open>The character just consumed is always the last one of the current line.\<close>

lemma wrap_fold_last:
  "xs \<noteq> [] \<Longrightarrow> current_line (fold (wrap_step cw w) xs st) \<noteq> []
   \<and> last (current_line (fold (wrap_step cw w) xs st)) = last xs"
proof (induction xs arbitrary: st)
  case (Cons x xs)
  show ?case
  proof (cases xs)
    case Nil
    then show ?thesis by (simp add: wrap_defs)
  next
    case (Cons y ys)
    then show ?thesis using Cons.IH [of "wrap_step cw w x st"] by simp
  qed
qed simp

subsection \<open>Empty visual lines\<close>

text \<open>Only the first visual line can be empty: every later one starts a forced break.\<close>

lemma breaks_forced_tl_nonempty:
  "breaks_forced cw w ls \<Longrightarrow> list_all (\<lambda>l. l \<noteq> []) (tl ls)"
  by (induction cw w ls rule: breaks_forced.induct) (auto split: list.splits)

lemma wrap_step_lines_nonempty:
  "list_all (\<lambda>l. l \<noteq> []) (result st) \<and> current_line st \<noteq> [] \<Longrightarrow>
   list_all (\<lambda>l. l \<noteq> []) (result (wrap_step cw w ch st)) \<and> current_line (wrap_step cw w ch st) \<noteq> []"
  by (simp add: wrap_defs)

lemma wrap_fold_lines_nonempty:
  "list_all (\<lambda>l. l \<noteq> []) (result st) \<and> current_line st \<noteq> [] \<Longrightarrow>
   list_all (\<lambda>l. l \<noteq> []) (result (fold (wrap_step cw w) xs st))
   \<and> current_line (fold (wrap_step cw w) xs st) \<noteq> []"
  by (induction xs arbitrary: st) (simp_all add: wrap_step_lines_nonempty)

lemma wrap_step_result:
  "result (wrap_step cw w ch st)
   = result st @ (if current_width st + char_width cw ch > w then [current_line st] else [])"
  by (simp add: wrap_defs)

lemma wrap_fold_result_prefix:
  "\<exists>zs. result (fold (wrap_step cw w) xs st) = result st @ zs"
proof (induction xs arbitrary: st)
  case Nil
  then show ?case by simp
next
  case (Cons x xs)
  obtain zs where "result (fold (wrap_step cw w) xs (wrap_step cw w x st))
                   = result (wrap_step cw w x st) @ zs"
    using Cons.IH by blast
  then show ?case by (auto simp: wrap_step_result)
qed

lemma wrap_line_Cons_unfold:
  "0 < width \<Longrightarrow> wrap_line cw (c # cs) width =
     (let st = fold (wrap_step cw width) cs (wrap_step cw width c wrap_init)
      in result st @ [current_line st])"
  by (simp add: wrap_line_def)

text \<open>
  The first visual line of a non-empty line is empty exactly when the first character
  alone is wider than the width: the loop then pushes the still empty current line before
  it places the character.
\<close>

text \<open>
  C4.  The first visual line of a non-empty logical line is empty exactly when its first
  character alone is wider than the width: the loop then pushes the empty current line
  before placing the character, a visual line that carries nothing.
\<close>

lemma wrap_line_first_empty_iff:
  assumes "0 < width"
  shows "hd (wrap_line cw (c # cs) width) = [] \<longleftrightarrow> width < char_width cw c"
proof (cases "width < char_width cw c")
  case True
  let ?st = "wrap_step cw width c wrap_init"
  have "result ?st = [[]]" using True by (simp add: wrap_defs)
  then obtain zs where "result (fold (wrap_step cw width) cs ?st) = [] # zs"
    using wrap_fold_result_prefix [of cw width cs ?st] by auto
  with True assms show ?thesis by (simp add: wrap_line_Cons_unfold Let_def)
next
  case False
  let ?st = "wrap_step cw width c wrap_init"
  have "list_all (\<lambda>l. l \<noteq> []) (result ?st) \<and> current_line ?st \<noteq> []"
    using False by (simp add: wrap_defs)
  then have "list_all (\<lambda>l. l \<noteq> []) (result (fold (wrap_step cw width) cs ?st) @
               [current_line (fold (wrap_step cw width) cs ?st)])"
    using wrap_fold_lines_nonempty by simp
  with False assms show ?thesis
    by (auto simp: wrap_line_Cons_unfold Let_def list_all_iff hd_append split: if_splits)
qed

subsection \<open>Number of visual lines for narrow text\<close>

text \<open>
  When every character is one column wide the loop cuts the line into chunks of exactly
  \<open>width\<close> characters: the count of completed lines times the width plus the current
  width is the number of characters read.
\<close>

lemma wrap_fold_narrow_count:
  assumes "list_all (\<lambda>c. char_width cw c = 1) xs" and "0 < w"
    and "current_width st \<le> w" and "result st \<noteq> [] \<longrightarrow> 0 < current_width st"
  shows "length (result (fold (wrap_step cw w) xs st)) * w + current_width (fold (wrap_step cw w) xs st)
           = length (result st) * w + current_width st + length xs
         \<and> current_width (fold (wrap_step cw w) xs st) \<le> w
         \<and> (result (fold (wrap_step cw w) xs st) \<noteq> [] \<or> xs \<noteq> []
            \<longrightarrow> 0 < current_width (fold (wrap_step cw w) xs st))"
  using assms
proof (induction xs arbitrary: st)
  case Nil
  then show ?case by simp
next
  case (Cons x xs)
  let ?st = "wrap_step cw w x st"
  have x: "char_width cw x = 1" using Cons.prems(1) by simp
  have step: "length (result ?st) * w + current_width ?st = length (result st) * w + current_width st + 1"
    and le: "current_width ?st \<le> w" and pos: "0 < current_width ?st"
    using x Cons.prems(2,3) by (auto simp: wrap_defs)
  have IH: "length (result (fold (wrap_step cw w) xs ?st)) * w + current_width (fold (wrap_step cw w) xs ?st)
           = length (result ?st) * w + current_width ?st + length xs
         \<and> current_width (fold (wrap_step cw w) xs ?st) \<le> w
         \<and> (result (fold (wrap_step cw w) xs ?st) \<noteq> [] \<or> xs \<noteq> []
            \<longrightarrow> 0 < current_width (fold (wrap_step cw w) xs ?st))"
    using Cons.prems(1,2) le pos by (intro Cons.IH) simp_all
  have "0 < current_width (fold (wrap_step cw w) xs ?st)"
  proof (cases "xs = []")
    case True
    then show ?thesis using pos by simp
  next
    case False
    then show ?thesis using IH by blast
  qed
  with IH step show ?case by simp
qed

lemma ceil_div_chunks:
  assumes "0 < (w::nat)" and "c \<le> w" and "0 < c"
  shows "(r * w + c + w - 1) div w = Suc r"
  using assms by (intro div_nat_eqI) (simp_all add: algebra_simps)

text \<open>
  C5.  For text of one-column characters the number of visual lines is the number of
  characters divided by the width, rounded up, and at least one.
\<close>

lemma wrap_line_length_narrow:
  assumes "0 < width" and "list_all (\<lambda>c. char_width cw c = 1) line"
  shows "length (wrap_line cw line width) = max 1 ((length line + width - 1) div width)"
proof -
  let ?st = "fold (wrap_step cw width) line wrap_init"
  have inv: "length (result ?st) * width + current_width ?st = length line"
    and le: "current_width ?st \<le> width"
    and pos: "result ?st \<noteq> [] \<or> line \<noteq> [] \<longrightarrow> 0 < current_width ?st"
    using wrap_fold_narrow_count [OF assms(2,1), of wrap_init] by (simp_all add: wrap_init_def)
  have len: "length (wrap_line cw line width) = Suc (length (result ?st))"
    using assms(1) by (simp add: wrap_line_def Let_def)
  show ?thesis
  proof (cases "line = []")
    case True
    then show ?thesis using assms(1) by (simp add: wrap_line_def wrap_init_def)
  next
    case False
    then have "0 < current_width ?st" using pos by blast
    then have "(length line + width - 1) div width = Suc (length (result ?st))"
      using ceil_div_chunks [OF assms(1) le] inv by metis
    then show ?thesis using len by simp
  qed
qed

lemma wrap_narrow_counters:
  assumes "0 < w" and "list_all (\<lambda>c. char_width cw c = 1) xs"
  shows "length (result (fold (wrap_step cw w) xs wrap_init)) * w
           + current_width (fold (wrap_step cw w) xs wrap_init) = length xs"
    and "current_width (fold (wrap_step cw w) xs wrap_init) \<le> w"
    and "xs \<noteq> [] \<Longrightarrow> 0 < current_width (fold (wrap_step cw w) xs wrap_init)"
  using wrap_fold_narrow_count [OF assms(2,1), of wrap_init] by (simp_all add: wrap_init_def)

subsection \<open>The loop against the recursive reference\<close>

lemma wrap_step_cases:
  "wrap_step cw w ch st =
     (if w < current_width st + char_width cw ch
      then st\<lparr>result := result st @ [current_line st], current_line := [ch],
              current_width := char_width cw ch\<rparr>
      else st\<lparr>current_line := current_line st @ [ch],
              current_width := current_width st + char_width cw ch\<rparr>)"
  by (simp add: wrap_defs)

lemma wrap_fold_greedy:
  assumes "current_line st \<noteq> []" and "current_width st = str_width cw (current_line st)"
  shows "result (fold (wrap_step cw w) xs st) @ [current_line (fold (wrap_step cw w) xs st)]
         = result st @ greedy_from cw w (current_line st) xs"
  using assms
proof (induction xs arbitrary: st)
  case Nil
  then show ?case by simp
next
  case (Cons x xs)
  let ?st = "wrap_step cw w x st"
  have "current_line ?st \<noteq> []" and "current_width ?st = str_width cw (current_line ?st)"
    using Cons.prems by (simp_all add: wrap_step_cases)
  then have "result (fold (wrap_step cw w) xs ?st) @ [current_line (fold (wrap_step cw w) xs ?st)]
             = result ?st @ greedy_from cw w (current_line ?st) xs"
    by (rule Cons.IH)
  then show ?case
    using Cons.prems by (simp add: wrap_step_cases [of cw w x st] split: if_splits)
qed

lemma wrap_line_greedy:
  assumes "0 < width"
  shows "wrap_line cw line width =
           (if line \<noteq> [] \<and> width < char_width cw (hd line)
            then [] # greedy_lines cw width line else greedy_lines cw width line)"
proof (cases line)
  case Nil
  then show ?thesis using assms by (simp add: wrap_line_def greedy_lines_def wrap_init_def)
next
  case (Cons c cs)
  let ?st = "wrap_step cw width c wrap_init"
  have st: "current_line ?st = [c]" "current_width ?st = str_width cw [c]"
    "result ?st = (if width < char_width cw c then [[]] else [])"
    by (simp_all add: wrap_defs)
  have "wrap_line cw line width = result ?st @ greedy_from cw width [c] cs"
    using wrap_fold_greedy [of ?st cw width cs] st assms Cons
    by (simp add: wrap_line_Cons_unfold Let_def)
  then show ?thesis
    using Cons st by (simp add: greedy_lines_def)
qed

text \<open>
  C21.  The loop computes the recursive greedy reference, except for one extra empty
  first line when the first character alone is wider than the width.
\<close>

theorem wrap_line_eq_greedy:
  assumes "0 < width"
  shows "wrap_line cw line width =
           (if line \<noteq> [] \<and> width < char_width cw (hd line)
            then [] # greedy_lines cw width line else greedy_lines cw width line)"
  using wrap_line_greedy [OF assms] .

subsection \<open>The greedy decomposition is the only one the contract allows\<close>

lemma breaks_forced_Cons:
  "breaks_forced cw w (l # ls) \<longleftrightarrow>
     ls = [] \<or> ((case hd ls of [] \<Rightarrow> False | c # _ \<Rightarrow> w < str_width cw l + char_width cw c)
               \<and> breaks_forced cw w ls)"
  by (cases ls) auto

lemma line_fits_single: "line_fits cw w [c]"
  by (auto simp: line_fits_def)

lemma greedy_from_not_Nil: "greedy_from cw w cur xs \<noteq> []"
  by (induction cw w cur xs rule: greedy_from.induct) auto

lemma greedy_from_concat: "concat (greedy_from cw w cur xs) = cur @ xs"
  by (induction cw w cur xs rule: greedy_from.induct) auto

lemma greedy_from_hd: "\<exists>r. hd (greedy_from cw w cur xs) = cur @ r"
  by (induction cw w cur xs rule: greedy_from.induct) force+

lemma greedy_from_hd_not_Nil:
  "cur \<noteq> [] \<or> xs \<noteq> [] \<Longrightarrow> hd (greedy_from cw w cur xs) \<noteq> []"
proof (cases xs)
  case (Cons c cs)
  obtain r where "hd (greedy_from cw w (cur @ [c]) cs) = cur @ [c] @ r"
    using greedy_from_hd [of cw w "cur @ [c]" cs] by auto
  moreover obtain r' where "hd (greedy_from cw w [c] cs) = [c] @ r'"
    using greedy_from_hd [of cw w "[c]" cs] by auto
  ultimately show ?thesis using Cons by auto
qed (use greedy_from_hd in fastforce)

lemma greedy_from_fits:
  "line_fits cw w cur \<Longrightarrow> list_all (line_fits cw w) (greedy_from cw w cur xs)"
proof (induction cw w cur xs rule: greedy_from.induct)
  case (2 cw w cur c cs)
  have "line_fits cw w (cur @ [c])"
    if "\<not> (cur \<noteq> [] \<and> w < str_width cw cur + char_width cw c)"
    using that by (cases "cur = []") (auto simp: line_fits_single line_fits_def)
  then show ?case using 2 by (auto simp: line_fits_single)
qed simp

lemma greedy_from_forced: "breaks_forced cw w (greedy_from cw w cur xs)"
proof (induction cw w cur xs rule: greedy_from.induct)
  case (2 cw w cur c cs)
  obtain r where "hd (greedy_from cw w [c] cs) = c # r"
    using greedy_from_hd [of cw w "[c]" cs] by auto
  then show ?case using 2 greedy_from_not_Nil [of cw w "[c]" cs]
    by (auto simp: breaks_forced_Cons)
qed simp

lemma greedy_lines_contract: "wrap_contract cw width line (greedy_lines cw width line)"
  using greedy_from_not_Nil greedy_from_concat [of cw width "[]" line] greedy_from_fits [of cw width "[]"]
    greedy_from_forced greedy_from_hd_not_Nil [of "[]" line cw width]
  by (auto simp: wrap_contract_def greedy_lines_def line_fits_def)

lemma line_fits_long:
  "line_fits cw w (l @ c # r) \<Longrightarrow> l \<noteq> [] \<Longrightarrow> str_width cw (l @ [c]) \<le> w"
proof -
  assume f: "line_fits cw w (l @ c # r)" and l: "l \<noteq> []"
  have "l @ c # r \<noteq> [x]" for x using l by (cases l) auto
  then have "str_width cw (l @ c # r) \<le> w"
    using f by (auto simp: line_fits_def split: list.splits)
  then show ?thesis by simp
qed

lemma breaks_forced_next:
  "breaks_forced cw w (l # ls) \<Longrightarrow> ls \<noteq> [] \<Longrightarrow>
   \<exists>c r. hd ls = c # r \<and> w < str_width cw l + char_width cw c"
  by (auto simp: breaks_forced_Cons split: list.splits)

lemma concat_hd_Cons:
  "concat ls = c # cs \<Longrightarrow> hd ls = d # r \<Longrightarrow> d = c"
  by (cases ls) auto

lemma greedy_from_unique:
  assumes "concat ls = cur @ xs" and "list_all (line_fits cw w) ls" and "breaks_forced cw w ls"
    and "hd ls = cur @ r" and "ls \<noteq> []" and "hd ls = [] \<Longrightarrow> xs = []"
  shows "ls = greedy_from cw w cur xs"
  using assms
proof (induction xs arbitrary: cur ls r)
  case Nil
  then obtain ls' where ls: "ls = (cur @ r) # ls'" by (cases ls) auto
  with Nil have "r = []" "concat ls' = []" by auto
  moreover have "ls' = []"
    using breaks_forced_next [of cw w "cur @ r" ls'] Nil.prems(3) ls \<open>concat ls' = []\<close>
    by (cases ls') auto
  ultimately show ?case using ls by simp
next
  case (Cons c cs)
  then obtain ls' where ls: "ls = (cur @ r) # ls'" by (cases ls) auto
  with Cons.prems(1) have rest: "r @ concat ls' = c # cs" by simp
  have fits: "line_fits cw w (cur @ r)" and fits': "list_all (line_fits cw w) ls'"
    and bf': "breaks_forced cw w ls'"
    using Cons.prems(2,3) ls by (auto simp: breaks_forced_Cons)
  show ?case
  proof (cases "cur \<noteq> [] \<and> w < str_width cw cur + char_width cw c")
    case True
    have r: "r = []"
    proof (rule ccontr)
      assume "r \<noteq> []"
      then obtain r' where "r = c # r'" using rest by (cases r) auto
      then show False using line_fits_long [of cw w cur c r'] fits True by simp
    qed
    then have ne: "ls' \<noteq> []" using rest by auto
    then obtain d r' where hd': "hd ls' = d # r'"
      using breaks_forced_next [of cw w "cur @ r" ls'] Cons.prems(3) ls by auto
    then have "d = c" using concat_hd_Cons [of ls' c cs] rest r by simp
    then have "ls' = greedy_from cw w [c] cs"
      using Cons.IH [of ls' "[c]" r'] rest r fits' bf' ne hd' by simp
    then show ?thesis using ls r True by simp
  next
    case False
    have r: "r \<noteq> []"
    proof
      assume r: "r = []"
      then have ne: "ls' \<noteq> []" using rest by auto
      have "cur \<noteq> []" using Cons.prems(4,6) ls r by auto
      moreover obtain d r' where "hd ls' = d # r'" "w < str_width cw cur + char_width cw d"
        using breaks_forced_next [of cw w "cur @ r" ls'] Cons.prems(3) ls ne r by auto
      moreover have "d = c" using concat_hd_Cons [of ls' c cs] rest r calculation(2) by simp
      ultimately show False using False by simp
    qed
    then obtain r' where r': "r = c # r'" using rest by (cases r) auto
    have "ls = greedy_from cw w (cur @ [c]) cs"
      using Cons.IH [of ls "cur @ [c]" r'] Cons.prems ls r' by simp
    then show ?thesis using False by auto
  qed
qed

lemma wrap_contract_unique:
  "wrap_contract cw width line ls \<longleftrightarrow> ls = greedy_lines cw width line"
proof
  assume c: "wrap_contract cw width line ls"
  show "ls = greedy_lines cw width line"
    unfolding greedy_lines_def
    by (rule greedy_from_unique [where r = "hd ls"]) (use c in \<open>auto simp: wrap_contract_def\<close>)
qed (simp add: greedy_lines_contract)

text \<open>
  C24.  For a positive width, the Wrapper's output with its spurious empty first line
  removed is the one and only decomposition of the line that satisfies the contract of
  section 4.1: complete, every line fitting, every break forced, no empty first line.
\<close>

theorem wrap_line_contract:
  assumes "0 < width"
  shows "wrap_contract cw width line ls \<longleftrightarrow>
           ls = (if line \<noteq> [] \<and> hd (wrap_line cw line width) = []
                 then tl (wrap_line cw line width) else wrap_line cw line width)"
proof -
  have "(if line \<noteq> [] \<and> hd (wrap_line cw line width) = []
         then tl (wrap_line cw line width) else wrap_line cw line width) = greedy_lines cw width line"
    using wrap_line_greedy [OF assms, of cw line] greedy_from_hd_not_Nil [of "[]" line cw width]
    by (auto simp: greedy_lines_def)
  then show ?thesis by (simp add: wrap_contract_unique)
qed

subsection \<open>Text of one-column characters is cut into chunks\<close>

declare chunks.simps [simp del]

lemma chunks_short: "w = 0 \<or> length xs \<le> w \<Longrightarrow> chunks w xs = [xs]"
  by (simp add: chunks.simps)

lemma chunks_long: "0 < w \<Longrightarrow> w < length xs \<Longrightarrow> chunks w xs = take w xs # chunks w (drop w xs)"
  by (simp add: chunks.simps [of w xs])

lemma chunks_nth:
  "0 < w \<Longrightarrow> n < length xs \<Longrightarrow>
   n div w < length (chunks w xs) \<and> n mod w < length (chunks w xs ! (n div w))
   \<and> chunks w xs ! (n div w) ! (n mod w) = xs ! n"
proof (induction w xs arbitrary: n rule: chunks.induct)
  case (1 w xs)
  show ?case
  proof (cases "length xs \<le> w")
    case True
    then show ?thesis using 1 by (simp add: chunks_short)
  next
    case False
    show ?thesis
    proof (cases "n < w")
      case True
      then show ?thesis using 1 False by (simp add: chunks_long)
    next
      case nw: False
      have "n - w < length (drop w xs)" using 1 nw by simp
      then have ih: "(n - w) div w < length (chunks w (drop w xs))
                     \<and> (n - w) mod w < length (chunks w (drop w xs) ! ((n - w) div w))
                     \<and> chunks w (drop w xs) ! ((n - w) div w) ! ((n - w) mod w) = drop w xs ! (n - w)"
        using 1 False by simp
      have "n div w = Suc ((n - w) div w)" "n mod w = (n - w) mod w"
        using nw 1(2) by (simp_all add: le_div_geq le_mod_geq)
      then show ?thesis using ih nw 1(2) False by (simp add: chunks_long)
    qed
  qed
qed

lemma greedy_from_narrow:
  assumes "0 < w" and "list_all (\<lambda>c. char_width cw c = 1) (cur @ xs)" and "length cur \<le> w"
  shows "greedy_from cw w cur xs = chunks w (cur @ xs)"
  using assms
proof (induction xs arbitrary: cur)
  case Nil
  then show ?case by (simp add: chunks_short)
next
  case (Cons c cs)
  have wc: "char_width cw c = 1" and ncur: "list_all (\<lambda>c. char_width cw c = 1) cur"
    using Cons.prems(2) by simp_all
  have sw: "str_width cw cur = length cur" using ncur by (induction cur) simp_all
  show ?case
  proof (cases "cur \<noteq> [] \<and> length cur = w")
    case True
    then have "greedy_from cw w cur (c # cs) = cur # chunks w (c # cs)"
      using Cons.IH [of "[c]"] Cons.prems wc sw by simp
    moreover have "chunks w (cur @ c # cs) = cur # chunks w (c # cs)"
      using True Cons.prems(1) by (simp add: chunks_long)
    ultimately show ?thesis by simp
  next
    case False
    then have "length (cur @ [c]) \<le> w" using Cons.prems(1,3) by auto
    then show ?thesis
      using Cons.IH [of "cur @ [c]"] Cons.prems False wc sw by auto
  qed
qed

lemma wrap_line_narrow_chunks:
  assumes "0 < w" and "list_all (\<lambda>c. char_width cw c = 1) line"
  shows "wrap_line cw line w = chunks w line"
proof -
  have "\<not> (line \<noteq> [] \<and> w < char_width cw (hd line))"
    using assms by (cases line) auto
  then show ?thesis
    using wrap_line_greedy [OF assms(1), of cw line] greedy_from_narrow [OF assms(1), of cw "[]" line]
      assms(2) by (simp add: greedy_lines_def)
qed

lemma wrap_line_narrow_nth:
  assumes "0 < w" and "list_all (\<lambda>c. char_width cw c = 1) line" and "n < length line"
  shows "n div w < length (wrap_line cw line w)
         \<and> n mod w < length (wrap_line cw line w ! (n div w))
         \<and> wrap_line cw line w ! (n div w) ! (n mod w) = line ! n"
  using chunks_nth [OF assms(1,3)] wrap_line_narrow_chunks [OF assms(1,2)] by simp

lemma chunks_not_Nil: "chunks w xs \<noteq> []"
  by (subst chunks.simps) simp

lemma chunks_end:
  "0 < w \<Longrightarrow>
   (if length xs mod w = 0 \<and> xs \<noteq> []
    then length (chunks w xs) = length xs div w \<and> length (last (chunks w xs)) = w
    else length (chunks w xs) = Suc (length xs div w) \<and> length (last (chunks w xs)) = length xs mod w)"
proof (induction w xs rule: chunks.induct)
  case (1 w xs)
  show ?case
  proof (cases "length xs \<le> w")
    case True
    have c: "chunks w xs = [xs]" using True by (simp add: chunks_short)
    show ?thesis
    proof (cases "length xs = w")
      case True
      then have "xs \<noteq> []" using 1(2) by auto
      then show ?thesis using c 1(2) \<open>length xs = w\<close> by simp
    next
      case False
      then have "length xs < w" using \<open>length xs \<le> w\<close> by simp
      then show ?thesis using c by simp
    qed
  next
    case False
    let ?d = "drop w xs"
    have c: "chunks w xs = take w xs # chunks w ?d" using False 1(2) by (simp add: chunks_long)
    have d: "length ?d = length xs - w" "?d \<noteq> []" "xs \<noteq> []" using False by auto
    have dm: "length xs div w = Suc (length ?d div w)" "length xs mod w = length ?d mod w"
      using False 1(2) d(1) by (simp_all add: le_div_geq le_mod_geq)
    have ih: "if length ?d mod w = 0 \<and> ?d \<noteq> []
              then length (chunks w ?d) = length ?d div w \<and> length (last (chunks w ?d)) = w
              else length (chunks w ?d) = Suc (length ?d div w)
                   \<and> length (last (chunks w ?d)) = length ?d mod w"
      using 1 False by simp
    have "last (chunks w xs) = last (chunks w ?d)" using c chunks_not_Nil [of w ?d] by simp
    then show ?thesis using ih c dm d by (simp split: if_splits)
  qed
qed

lemma wrap_line_narrow_end:
  assumes "0 < w" and "list_all (\<lambda>c. char_width cw c = 1) line"
  shows "if length line mod w = 0 \<and> line \<noteq> []
         then length (wrap_line cw line w) = length line div w \<and> last (wrap_line cw line w) \<noteq> []
         else length (wrap_line cw line w) = Suc (length line div w)
              \<and> length (last (wrap_line cw line w)) = length line mod w"
  using chunks_end [OF assms(1), of line] wrap_line_narrow_chunks [OF assms] assms(1)
  by (auto split: if_splits)

declare wrap_line_def [model_eval] wrap_step_def [model_eval] wrap_init_def [model_eval]
  line_fits_def [model_eval] greedy_lines_def [model_eval]

end
