(* ===== verification/Layout.thy ===== *)
theory Layout
  imports Wrap
begin

text \<open>
  The Layout Engine: the first half of \<open>render_terminal\<close> in
  \<^verbatim>\<open>src/src/ui/terminal.rs\<close> (lines 54--80).  Every output line is wrapped and appended
  to \<open>visual_lines\<close>; the position reached is \<open>input_line_start\<close>; the prompt followed by
  the typed input is wrapped and appended; the scroll offset is
  \<open>total_visual_lines.saturating_sub(available_height)\<close> (\<open>nat\<close> subtraction) and the
  visible lines are what \<open>skip(scroll)\<close> leaves.  The record \<open>layout\<close> collects the locals
  the rest of the function reads.  The lemmas show where the input's visual lines sit, that
  the whole text survives the layout, that the scroll shows the bottom of the text, and
  that the visible block never has more rows than the viewport.
\<close>

record 'c layout =
  visual_lines :: "'c list list"
  input_line_start :: nat
  total_visual_lines :: nat
  scroll :: nat
  visible_lines :: "'c list list"

definition wrap_output :: "'c width_fn \<Rightarrow> 'c list list \<Rightarrow> nat \<Rightarrow> 'c list list" where
  "wrap_output cw outs width =
     fold (\<lambda>line visual. visual @ wrap_line cw line width) outs []"

definition layout ::
  "'c width_fn \<Rightarrow> 'c list list \<Rightarrow> 'c list \<Rightarrow> 'c list \<Rightarrow> nat \<Rightarrow> nat \<Rightarrow> 'c layout" where
  "layout cw outs prompt input width available_height =
     (let visual0 = wrap_output cw outs width;
          input_line_start = length visual0;
          full_input_line = prompt @ input;
          visual = visual0 @ wrap_line cw full_input_line width;
          total = length visual;
          scroll = total - available_height
      in \<lparr>visual_lines = visual, input_line_start = input_line_start,
          total_visual_lines = total, scroll = scroll, visible_lines = drop scroll visual\<rparr>)"

lemmas layout_fields = layout_def Let_def

subsection \<open>The output history\<close>

lemma fold_append_concat:
  "fold (\<lambda>x acc. acc @ f x) xs acc0 = acc0 @ concat (map f xs)"
  by (induction xs arbitrary: acc0) simp_all

lemma wrap_output_concat:
  "wrap_output cw outs width = concat (map (\<lambda>l. wrap_line cw l width) outs)"
  by (simp add: wrap_output_def fold_append_concat)

lemma length_wrap_output_ge: "length lines \<le> length (wrap_output cw lines width)"
proof -
  have ge: "1 \<le> length (wrap_line cw l width)" for l
    using wrap_line_not_Nil [of cw l width] by (cases "wrap_line cw l width") auto
  show ?thesis
  proof (induction lines)
    case (Cons l ls)
    have "1 \<le> length (wrap_line cw l width)" by (rule ge)
    with Cons.IH show ?case by (simp add: wrap_output_concat)
  qed (simp add: wrap_output_concat)
qed

subsection \<open>Shape of the layout\<close>

lemma layout_visual_lines:
  "visual_lines (layout cw outs prompt input width h)
   = wrap_output cw outs width @ wrap_line cw (prompt @ input) width"
  and layout_input_line_start:
  "input_line_start (layout cw outs prompt input width h) = length (wrap_output cw outs width)"
  and layout_total:
  "total_visual_lines (layout cw outs prompt input width h)
   = length (visual_lines (layout cw outs prompt input width h))"
  and layout_scroll:
  "scroll (layout cw outs prompt input width h)
   = total_visual_lines (layout cw outs prompt input width h) - h"
  and layout_visible:
  "visible_lines (layout cw outs prompt input width h)
   = drop (scroll (layout cw outs prompt input width h)) (visual_lines (layout cw outs prompt input width h))"
  by (simp_all add: layout_fields)

lemmas layout_simps = layout_visual_lines layout_input_line_start layout_total layout_scroll
  layout_visible

text \<open>
  C9.  The input's visual lines are contiguous and last: they are exactly what follows
  position \<open>input_line_start\<close> in the visual lines.
\<close>

lemma layout_input_lines:
  "drop (input_line_start (layout cw outs prompt input width h))
        (visual_lines (layout cw outs prompt input width h))
   = wrap_line cw (prompt @ input) width"
  by (simp add: layout_simps)

lemma layout_input_line_start_less:
  "input_line_start (layout cw outs prompt input width h)
   < total_visual_lines (layout cw outs prompt input width h)"
  using wrap_line_not_Nil [of cw "prompt @ input" width] by (simp add: layout_simps)

text \<open>
  C6.  The visible block has \<open>min total height\<close> rows: it never has more rows than
  the viewport, so the drawing surface never has to clip it.
\<close>

lemma layout_visible_length:
  "length (visible_lines (layout cw outs prompt input width h))
   = min (total_visual_lines (layout cw outs prompt input width h)) h"
  by (simp add: layout_simps)

text \<open>
  C8.  The layout is complete: for a positive width, the visual lines concatenate to the
  output history followed by the prompt and the typed input.
\<close>

lemma layout_chars:
  assumes "0 < width"
  shows "concat (visual_lines (layout cw outs prompt input width h)) = concat outs @ prompt @ input"
proof -
  have "concat (wrap_output cw outs width) = concat outs"
    using assms by (induction outs) (simp_all add: wrap_output_concat concat_wrap_line)
  then show ?thesis
    using assms by (simp add: layout_simps concat_wrap_line)
qed

text \<open>
  C10.  When all visual lines fit the viewport, nothing is scrolled away.
\<close>

lemma layout_all_visible:
  assumes "total_visual_lines (layout cw outs prompt input width h) \<le> h"
  shows "scroll (layout cw outs prompt input width h) = 0
         \<and> visible_lines (layout cw outs prompt input width h)
           = visual_lines (layout cw outs prompt input width h)"
  using assms by (simp add: layout_simps)

lemma layout_visible_suffix:
  "visible_lines (layout cw outs prompt input width h)
   = drop (total_visual_lines (layout cw outs prompt input width h) - h)
          (visual_lines (layout cw outs prompt input width h))"
  by (simp add: layout_simps)

text \<open>
  C7.  Scrolling keeps the most recent content visible: in a viewport of positive height
  the last visible row is the last visual line of the input.
\<close>

lemma layout_last_visible:
  assumes "0 < h"
  shows "last (visible_lines (layout cw outs prompt input width h))
         = last (wrap_line cw (prompt @ input) width)"
proof -
  let ?L = "layout cw outs prompt input width h"
  have "scroll ?L < length (visual_lines ?L)"
    using assms layout_input_line_start_less [of cw outs prompt input width h]
    by (simp add: layout_simps)
  then have "last (visible_lines ?L) = last (visual_lines ?L)"
    by (simp add: layout_visible)
  then show ?thesis
    using wrap_line_not_Nil [of cw "prompt @ input" width] by (simp add: layout_simps)
qed

text \<open>
  Where a visual line of the input appears in the viewport: the \<open>j\<close>-th visual line of the
  input, when not scrolled away, is the visible line \<open>input_line_start + j - scroll\<close>.
\<close>

lemma visible_lines_input_row:
  assumes "j < length (wrap_line cw (prompt @ input) width)"
    and "scroll (layout cw outs prompt input width h)
         \<le> input_line_start (layout cw outs prompt input width h) + j"
  shows "input_line_start (layout cw outs prompt input width h) + j
           - scroll (layout cw outs prompt input width h)
         < length (visible_lines (layout cw outs prompt input width h))
         \<and> visible_lines (layout cw outs prompt input width h)
             ! (input_line_start (layout cw outs prompt input width h) + j
                - scroll (layout cw outs prompt input width h))
           = wrap_line cw (prompt @ input) width ! j"
proof -
  let ?L = "layout cw outs prompt input width h"
  have lt: "input_line_start ?L + j < length (visual_lines ?L)"
    using assms(1) by (simp add: layout_visual_lines layout_input_line_start)
  have "visual_lines ?L ! (input_line_start ?L + j) = wrap_line cw (prompt @ input) width ! j"
    by (simp add: layout_visual_lines layout_input_line_start nth_append)
  then show ?thesis
    using lt assms(2) by (simp add: layout_visible)
qed

lemma visible_lines_length:
  "length (visible_lines (layout cw outs prompt input width h))
   = input_line_start (layout cw outs prompt input width h)
     + length (wrap_line cw (prompt @ input) width) - scroll (layout cw outs prompt input width h)"
proof -
  let ?L = "layout cw outs prompt input width h"
  have "length (visible_lines ?L) = length (visual_lines ?L) - scroll ?L"
    by (simp only: layout_visible length_drop)
  moreover have "length (visual_lines ?L) = input_line_start ?L + length (wrap_line cw (prompt @ input) width)"
    by (simp add: layout_visual_lines layout_input_line_start)
  ultimately show ?thesis by simp
qed

lemma visible_lines_last:
  assumes "visible_lines (layout cw outs prompt input width h) \<noteq> []"
  shows "last (visible_lines (layout cw outs prompt input width h))
         = last (wrap_line cw (prompt @ input) width)"
proof -
  let ?L = "layout cw outs prompt input width h"
  have lt: "scroll ?L < length (visual_lines ?L)" using assms by (simp add: layout_visible)
  have "last (visible_lines ?L) = last (visual_lines ?L)"
    unfolding layout_visible by (rule last_drop [OF lt])
  also have "\<dots> = last (wrap_line cw (prompt @ input) width)"
    using wrap_line_not_Nil [of cw "prompt @ input" width] by (simp add: layout_visual_lines)
  finally show ?thesis .
qed

text \<open>
  Where the end of a one-column input line lands among the visible lines: with
  \<open>n\<close> the length of the line, row \<open>input_line_start + n div width - scroll\<close> and column
  \<open>n mod width\<close> are either just after the last character of the last visible line, or
  the start of the row below a last visible line that is full.
\<close>

lemma visible_lines_end:
  assumes w: "0 < width" and narrow: "list_all (\<lambda>c. char_width cw c = 1) (prompt @ input)"
    and sc: "scroll (layout cw outs prompt input width h)
             \<le> input_line_start (layout cw outs prompt input width h) + length (prompt @ input) div width"
  shows "(Suc (input_line_start (layout cw outs prompt input width h) + length (prompt @ input) div width
               - scroll (layout cw outs prompt input width h))
            = length (visible_lines (layout cw outs prompt input width h))
          \<and> length (last (visible_lines (layout cw outs prompt input width h)))
            = length (prompt @ input) mod width)
         \<or> (input_line_start (layout cw outs prompt input width h) + length (prompt @ input) div width
              - scroll (layout cw outs prompt input width h)
            = length (visible_lines (layout cw outs prompt input width h))
            \<and> length (prompt @ input) mod width = 0
            \<and> (visible_lines (layout cw outs prompt input width h) \<noteq> []
               \<longrightarrow> last (visible_lines (layout cw outs prompt input width h)) \<noteq> []))"
proof -
  let ?L = "layout cw outs prompt input width h"
  let ?n = "length (prompt @ input)"
  let ?wl = "wrap_line cw (prompt @ input) width"
  have lenV: "length (visible_lines ?L) = input_line_start ?L + length ?wl - scroll ?L"
    by (rule visible_lines_length)
  have e: "if ?n mod width = 0 \<and> prompt @ input \<noteq> []
           then length ?wl = ?n div width \<and> last ?wl \<noteq> []
           else length ?wl = Suc (?n div width) \<and> length (last ?wl) = ?n mod width"
    by (rule wrap_line_narrow_end [OF w narrow])
  show ?thesis
  proof (cases "?n mod width = 0 \<and> prompt @ input \<noteq> []")
    case True
    then show ?thesis using e lenV visible_lines_last [of cw outs prompt input width h] by auto
  next
    case False
    then have l: "length ?wl = Suc (?n div width)" "length (last ?wl) = ?n mod width"
      using e by simp_all
    have "length (visible_lines ?L) = Suc (input_line_start ?L + ?n div width) - scroll ?L"
      using lenV l(1) by simp
    then have ySuc: "Suc (input_line_start ?L + ?n div width - scroll ?L) = length (visible_lines ?L)"
      using sc by (simp add: Suc_diff_le)
    then have "visible_lines ?L \<noteq> []" by auto
    then have "last (visible_lines ?L) = last ?wl" by (rule visible_lines_last)
    then show ?thesis using ySuc l(2) by simp
  qed
qed

declare layout_visual_lines [model_eval] layout_input_line_start [model_eval]
  layout_total [model_eval] layout_scroll [model_eval] layout_visible [model_eval]
  wrap_output_concat [model_eval]

end
