(* ===== verification/Utf8Slice.thy ===== *)
theory Utf8Slice
  imports Prelude
begin

text \<open>
  Byte offsets into a Rust \<open>String\<close>, as lines 89--93 of \<^verbatim>\<open>src/src/ui/terminal.rs\<close> use
  them: \<open>app.input.char_indices()\<close> pairs every character with the byte offset at
  which its UTF-8 encoding starts, \<open>app.input.len()\<close> is the length in bytes, and
  \<open>&app.input[..i]\<close> panics unless \<open>i\<close> is a character boundary.  The UTF-8 length of a
  character (\<open>char::len_utf8\<close>, between 1 and 4) is a parameter \<open>clen\<close>, as the width is;
  \<open>utf8_len\<close> is its value on code points, used by the concrete instances.  A panic is
  the value \<open>None\<close> of \<open>str_slice_to\<close>.  The lemmas show where \<open>char_indices\<close> puts each
  character and that slicing at the offset of the \<open>j\<close>-th character, or at the length,
  never panics and yields the first \<open>j\<close> characters.
\<close>

type_synonym 'c utf8_len_fn = "'c \<Rightarrow> nat"

definition byte_len :: "'c utf8_len_fn \<Rightarrow> 'c list \<Rightarrow> nat" where
  "byte_len clen s = sum_list (map clen s)"

fun char_indices_from :: "'c utf8_len_fn \<Rightarrow> nat \<Rightarrow> 'c list \<Rightarrow> (nat \<times> 'c) list" where
  "char_indices_from clen off [] = []"
| "char_indices_from clen off (c # cs) = (off, c) # char_indices_from clen (off + clen c) cs"

definition char_indices :: "'c utf8_len_fn \<Rightarrow> 'c list \<Rightarrow> (nat \<times> 'c) list" where
  "char_indices clen s = char_indices_from clen 0 s"

definition is_char_boundary :: "'c utf8_len_fn \<Rightarrow> 'c list \<Rightarrow> nat \<Rightarrow> bool" where
  "is_char_boundary clen s i \<longleftrightarrow> i = byte_len clen s \<or> i \<in> set (map fst (char_indices clen s))"

definition str_slice_to :: "'c utf8_len_fn \<Rightarrow> 'c list \<Rightarrow> nat \<Rightarrow> 'c list option" where
  "str_slice_to clen s i =
     (if is_char_boundary clen s i
      then Some (map snd (takeWhile (\<lambda>(pos, _). pos < i) (char_indices clen s)))
      else None)"

definition input_before_cursor_bytes :: "'c utf8_len_fn \<Rightarrow> 'c list \<Rightarrow> nat \<Rightarrow> 'c list option" where
  "input_before_cursor_bytes clen input cursor_pos =
     str_slice_to clen input
       (case nth_opt (char_indices clen input) cursor_pos of
          Some (pos, _) \<Rightarrow> pos
        | None \<Rightarrow> byte_len clen input)"

definition utf8_len :: "nat \<Rightarrow> nat" where
  "utf8_len c = (if c < 128 then 1 else if c < 2048 then 2 else if c < 65536 then 3 else 4)"

subsection \<open>Lemmas\<close>

lemma byte_len_simps [simp]:
  "byte_len clen [] = 0"
  "byte_len clen (c # s) = clen c + byte_len clen s"
  by (simp_all add: byte_len_def)

lemma length_char_indices_from [simp]: "length (char_indices_from clen off s) = length s"
  by (induction s arbitrary: off) simp_all

lemma nth_char_indices_from:
  "j < length s \<Longrightarrow> char_indices_from clen off s ! j = (off + byte_len clen (take j s), s ! j)"
  by (induction s arbitrary: off j) (auto simp: nth_Cons split: nat.split)

lemma takeWhile_char_indices_from:
  assumes "\<forall>c \<in> set s. 0 < clen c" and "j \<le> length s"
  shows "map snd (takeWhile (\<lambda>(pos, _). pos < off + byte_len clen (take j s))
                            (char_indices_from clen off s)) = take j s"
  using assms
proof (induction s arbitrary: off j)
  case (Cons c cs)
  then show ?case
  proof (cases j)
    case (Suc j')
    have "0 < clen c" using Cons.prems(1) by simp
    then show ?thesis
      using Cons.IH [of j' "off + clen c"] Cons.prems Suc by (simp add: add.assoc)
  qed simp
qed simp

lemma is_char_boundary_take:
  assumes "j \<le> length s"
  shows "is_char_boundary clen s (byte_len clen (take j s))"
proof (cases "j < length s")
  case True
  then have "char_indices clen s ! j = (byte_len clen (take j s), s ! j)"
    by (simp add: char_indices_def nth_char_indices_from)
  then have "byte_len clen (take j s) \<in> set (map fst (char_indices clen s))"
    using True by (metis fst_conv length_char_indices_from length_map nth_map nth_mem char_indices_def)
  then show ?thesis by (simp add: is_char_boundary_def)
next
  case False
  then show ?thesis using assms by (simp add: is_char_boundary_def)
qed

lemma str_slice_to_take:
  assumes "\<forall>c \<in> set s. 0 < clen c" and "j \<le> length s"
  shows "str_slice_to clen s (byte_len clen (take j s)) = Some (take j s)"
  using is_char_boundary_take [OF assms(2), of clen] takeWhile_char_indices_from [OF assms, of 0]
  by (simp add: str_slice_to_def char_indices_def)

lemma nth_opt_char_indices:
  "nth_opt (char_indices clen s) k =
     (if k < length s then Some (byte_len clen (take k s), s ! k) else None)"
  by (simp add: nth_opt_conv char_indices_def nth_char_indices_from)

declare utf8_len_def [model_eval] str_slice_to_def [model_eval] is_char_boundary_def [model_eval]
  char_indices_def [model_eval] input_before_cursor_bytes_def [model_eval]

end
