(* ===== verification/Cursor.thy ===== *)
theory Cursor
  imports Layout Utf8Slice
begin

text \<open>
  The Cursor Mapper: the second half of \<open>render_terminal\<close> in
  \<^verbatim>\<open>src/src/ui/terminal.rs\<close> (lines 87--113).  \<open>input_before_cursor\<close> is the slice
  of the input up to the \<open>cursor_pos\<close>-th character (\<open>char_indices().nth\<close>, falling back
  to the whole input); \<open>cursor_geometry\<close> collects the locals computed from it
  (\<open>cursor_visual_pos\<close>, \<open>cursor_line_offset\<close>, \<open>cursor_x_offset\<close>,
  \<open>cursor_line_absolute\<close>, \<open>cursor_line_visible\<close>); \<open>map_cursor\<close> is the guard of line
  111 applied to them: the viewport-relative cell, or \<open>None\<close> when no cursor is set.
  The \<open>u16\<close> translation by the viewport origin is in theory \<open>Render\<close>.
  \<open>input_before_cursor\<close> works on character offsets; the byte offsets and the panicking
  slice of the source are \<open>input_before_cursor_bytes\<close> (theory \<open>Utf8Slice\<close>), and the two
  agree (C27), so the geometry is computed from the former.

  Two reference notions that are not code: \<open>spec_map_cursor\<close> is the Cursor Mapper
  contract of the specification (section 4.3: the viewport row is a signed difference and a
  row above the viewport means no cursor), and \<open>cursor_cell\<close> is the cell at which the
  Wrapper itself places the character under the cursor (or the cell after the last
  character).  The lemmas relate the code to both.
\<close>

definition input_before_cursor :: "'c list \<Rightarrow> nat \<Rightarrow> 'c list" where
  "input_before_cursor input cursor_pos =
     take (case nth_opt (enumerate 0 input) cursor_pos of Some (pos, _) \<Rightarrow> pos | None \<Rightarrow> length input)
          input"

record cursor_geom =
  cursor_visual_pos :: nat
  cursor_line_offset :: nat
  cursor_x_offset :: nat
  cursor_line_absolute :: nat
  cursor_line_visible :: nat

definition cursor_geometry ::
  "'c width_fn \<Rightarrow> 'c list \<Rightarrow> 'c list \<Rightarrow> nat \<Rightarrow> nat \<Rightarrow> nat \<Rightarrow> nat \<Rightarrow> cursor_geom" where
  "cursor_geometry cw prompt input cursor_pos width line_start scroll_off =
     (let prompt_width = str_width cw prompt;
          before = input_before_cursor input cursor_pos;
          visual_pos = prompt_width + str_width cw before;
          line_offset = visual_pos div width;
          x_offset = visual_pos mod width;
          absolute = line_start + line_offset;
          visible = absolute - scroll_off
      in \<lparr>cursor_visual_pos = visual_pos, cursor_line_offset = line_offset,
          cursor_x_offset = x_offset, cursor_line_absolute = absolute,
          cursor_line_visible = visible\<rparr>)"

definition map_cursor ::
  "'c width_fn \<Rightarrow> 'c list \<Rightarrow> 'c list \<Rightarrow> nat \<Rightarrow> nat \<Rightarrow> nat \<Rightarrow> nat \<Rightarrow> nat \<Rightarrow> (nat \<times> nat) option" where
  "map_cursor cw prompt input cursor_pos width line_start scroll_off available_height =
     (let g = cursor_geometry cw prompt input cursor_pos width line_start scroll_off
      in if cursor_line_visible g < available_height
         then Some (cursor_x_offset g, cursor_line_visible g) else None)"

subsection \<open>Reference notions\<close>

definition spec_map_cursor ::
  "'c width_fn \<Rightarrow> nat \<Rightarrow> 'c list \<Rightarrow> nat \<Rightarrow> nat \<Rightarrow> nat \<Rightarrow> nat \<Rightarrow> nat \<Rightarrow> (nat \<times> nat) option" where
  "spec_map_cursor cw prompt_width input_text offset width line_start scroll_offset
     viewport_height =
     (let column = prompt_width + str_width cw (take (min offset (length input_text)) input_text);
          absolute_row = int line_start + int (column div width);
          row_in_viewport = absolute_row - int scroll_offset
      in if 0 \<le> row_in_viewport \<and> row_in_viewport < int viewport_height
         then Some (column mod width, nat row_in_viewport) else None)"

definition char_cell :: "'c width_fn \<Rightarrow> nat \<Rightarrow> 'c list \<Rightarrow> nat \<Rightarrow> nat \<times> nat" where
  "char_cell cw width line k =
     (let st = fold (wrap_step cw width) (take (Suc k) line) wrap_init
      in (length (result st), current_width st - char_width cw (line ! k)))"

definition end_cell :: "'c width_fn \<Rightarrow> nat \<Rightarrow> 'c list \<Rightarrow> nat \<times> nat" where
  "end_cell cw width line =
     (let st = fold (wrap_step cw width) line wrap_init
      in if width \<le> current_width st then (Suc (length (result st)), 0)
         else (length (result st), current_width st))"

definition cursor_cell :: "'c width_fn \<Rightarrow> nat \<Rightarrow> 'c list \<Rightarrow> nat \<Rightarrow> nat \<times> nat" where
  "cursor_cell cw width line k =
     (if k < length line then char_cell cw width line k else end_cell cw width line)"

text \<open>
  The columns the Wrapper leaves empty at the ends of the rows it has completed before the
  \<open>k\<close>-th character of a line (the room a wide character did not fit in).
\<close>

definition row_gaps :: "'c width_fn \<Rightarrow> nat \<Rightarrow> 'c list \<Rightarrow> nat \<Rightarrow> nat" where
  "row_gaps cw width line k =
     sum_list (map (\<lambda>l. width - str_width cw l)
                   (result (fold (wrap_step cw width) (take (Suc k) line) wrap_init)))"

lemmas cursor_fields = cursor_geometry_def Let_def

subsection \<open>The slice before the cursor\<close>

lemma nth_opt_enumerate:
  "nth_opt (enumerate n xs) k = (if k < length xs then Some (n + k, xs ! k) else None)"
  by (simp add: nth_opt_conv nth_enumerate_eq)

lemma input_before_cursor_take: "input_before_cursor input k = take k input"
  by (simp add: input_before_cursor_def nth_opt_enumerate)

text \<open>
  C16.  An offset past the end of the input is treated as the end of the text: the slice
  before the cursor is the first \<open>cursor_pos\<close> characters, or the whole input.
\<close>

lemma input_before_cursor_clamp:
  "input_before_cursor input k = (if k < length input then take k input else input)"
  by (simp add: input_before_cursor_def nth_opt_enumerate)

text \<open>
  C27.  The slice \<open>&app.input[..i]\<close> of lines 89--93 never panics: the byte offset that
  \<open>char_indices().nth(cursor_pos)\<close> yields, or \<open>input.len()\<close> when there is none, is always
  a character boundary, and the slice is the first \<open>cursor_pos\<close> characters (or the whole
  input), the character-level \<open>input_before_cursor\<close>.
\<close>

theorem input_before_cursor_bytes_refines:
  assumes "\<forall>c \<in> set input. 0 < clen c"
  shows "input_before_cursor_bytes clen input k = Some (input_before_cursor input k)"
proof -
  have "input_before_cursor_bytes clen input k
        = str_slice_to clen input (byte_len clen (take (min k (length input)) input))"
    by (simp add: input_before_cursor_bytes_def nth_opt_char_indices min_def)
  also have "\<dots> = Some (take (min k (length input)) input)"
    by (rule str_slice_to_take [OF assms]) simp
  finally show ?thesis by (simp add: input_before_cursor_take min_def split: if_splits)
qed

lemma cursor_visual_pos_eq:
  "cursor_visual_pos (cursor_geometry cw prompt input k width s sc)
   = str_width cw (take (length prompt + min k (length input)) (prompt @ input))"
  by (simp add: cursor_fields input_before_cursor_take min_def)

lemma str_width_narrow:
  "list_all (\<lambda>c. char_width cw c = 1) xs \<Longrightarrow> str_width cw xs = length xs"
  by (induction xs) simp_all

lemma cursor_offsets:
  "cursor_line_offset (cursor_geometry cw prompt input k width s sc)
     = cursor_visual_pos (cursor_geometry cw prompt input k width s sc) div width"
  "cursor_x_offset (cursor_geometry cw prompt input k width s sc)
     = cursor_visual_pos (cursor_geometry cw prompt input k width s sc) mod width"
  "cursor_line_absolute (cursor_geometry cw prompt input k width s sc)
     = s + cursor_line_offset (cursor_geometry cw prompt input k width s sc)"
  "cursor_line_visible (cursor_geometry cw prompt input k width s sc)
     = cursor_line_absolute (cursor_geometry cw prompt input k width s sc) - sc"
  by (simp_all add: cursor_fields)

lemma map_cursor_eq:
  "map_cursor cw prompt input k width s sc h =
     (if cursor_line_visible (cursor_geometry cw prompt input k width s sc) < h
      then Some (cursor_x_offset (cursor_geometry cw prompt input k width s sc),
                 cursor_line_visible (cursor_geometry cw prompt input k width s sc))
      else None)"
  by (simp add: map_cursor_def Let_def)

subsection \<open>Bounds of the cursor cell\<close>

lemma map_cursor_bounds:
  assumes "0 < width" and "map_cursor cw prompt input k width s sc h = Some (x, y)"
  shows "x < width \<and> y < h"
  using assms by (auto simp: map_cursor_eq cursor_offsets split: if_splits)

text \<open>
  C14.  A cursor whose row lies in the viewport is displayed at its column and at its row
  relative to the top of the viewport, both inside the viewport; a cursor whose row lies
  below the viewport is not displayed.
\<close>

lemma map_cursor_visible_row:
  assumes "0 < width"
  shows "(sc \<le> cursor_line_absolute (cursor_geometry cw prompt input k width s sc)
          \<and> cursor_line_absolute (cursor_geometry cw prompt input k width s sc) < sc + h
          \<longrightarrow> map_cursor cw prompt input k width s sc h
                = Some (cursor_x_offset (cursor_geometry cw prompt input k width s sc),
                        cursor_line_absolute (cursor_geometry cw prompt input k width s sc) - sc)
              \<and> cursor_x_offset (cursor_geometry cw prompt input k width s sc) < width
              \<and> cursor_line_absolute (cursor_geometry cw prompt input k width s sc) - sc < h)
         \<and> (sc + h \<le> cursor_line_absolute (cursor_geometry cw prompt input k width s sc)
          \<longrightarrow> map_cursor cw prompt input k width s sc h = None)"
  using assms by (auto simp: map_cursor_eq cursor_offsets)

subsection \<open>The code against the specified contract\<close>

lemma spec_map_cursor_column:
  "str_width cw prompt + str_width cw (take (min k (length input)) input)
   = cursor_visual_pos (cursor_geometry cw prompt input k width s sc)"
  by (simp add: cursor_fields input_before_cursor_take min_def)

lemma spec_map_cursor_eq:
  "spec_map_cursor cw (str_width cw prompt) input k width s sc h =
     (let row = int (cursor_line_absolute (cursor_geometry cw prompt input k width s sc)) - int sc
      in if 0 \<le> row \<and> row < int h
         then Some (cursor_x_offset (cursor_geometry cw prompt input k width s sc), nat row)
         else None)"
  by (simp add: spec_map_cursor_def cursor_fields input_before_cursor_take min_def)

text \<open>
  C11.  Wherever the cursor's row is not above the viewport, the code's cursor mapping is
  the specified one (section 4.3): the same cell, or no cursor in both.
\<close>

lemma map_cursor_refines_spec:
  assumes "sc \<le> cursor_line_absolute (cursor_geometry cw prompt input k width s sc)"
  shows "map_cursor cw prompt input k width s sc h
         = spec_map_cursor cw (str_width cw prompt) input k width s sc h"
proof -
  let ?a = "cursor_line_absolute (cursor_geometry cw prompt input k width s sc)"
  have d: "int ?a - int sc = int (?a - sc)"
    using assms by (simp add: of_nat_diff)
  show ?thesis
    by (simp add: map_cursor_eq spec_map_cursor_eq cursor_offsets(4) Let_def d)
qed

text \<open>
  C12.  When the cursor's row has been scrolled above the viewport, the code still
  places a cursor, on the top row at the cursor's column (\<open>saturating_sub\<close> turns the
  negative row into 0), where the specification says there is no cursor to display.
\<close>

lemma map_cursor_above_viewport:
  assumes "cursor_line_absolute (cursor_geometry cw prompt input k width s sc) < sc"
    and "0 < h"
  shows "map_cursor cw prompt input k width s sc h
           = Some (cursor_x_offset (cursor_geometry cw prompt input k width s sc), 0)
         \<and> spec_map_cursor cw (str_width cw prompt) input k width s sc h = None"
  using assms by (simp add: map_cursor_eq spec_map_cursor_eq cursor_offsets(4) Let_def)

subsection \<open>The cursor against the wrapped layout\<close>

text \<open>
  For text whose characters are all one column wide, the division by the width finds
  exactly the cell where the Wrapper has placed the character under the cursor, or the
  cell after the last character (the first cell of the next row when the last row is full).
\<close>

lemma char_cell_narrow:
  assumes w: "0 < width" and narrow: "list_all (\<lambda>c. char_width cw c = 1) line"
    and n: "n < length line"
  shows "char_cell cw width line n = (n div width, n mod width)"
proof -
  let ?st = "fold (wrap_step cw width) (take (Suc n) line) wrap_init"
  define R where "R = length (result ?st)"
  define c where "c = current_width ?st"
  have nar: "list_all (\<lambda>c. char_width cw c = 1) (take (Suc n) line)"
    using narrow by (auto simp: list_all_iff dest: in_set_takeD)
  have ne: "take (Suc n) line \<noteq> []" using n by auto
  have eq: "R * width + c = Suc n" and le: "c \<le> width" and pos: "0 < c"
    using wrap_narrow_counters [OF w nar] ne n by (auto simp: R_def c_def)
  have cwn: "char_width cw (line ! n) = 1"
    using narrow n by (simp add: list_all_iff)
  have lt: "c - 1 < width" using le pos by simp
  have "n = R * width + (c - 1)" using eq pos by simp
  then have "n div width = R" "n mod width = c - 1"
    using div_mod_decomp [OF lt, of R] by simp_all
  then show ?thesis using cwn by (simp add: char_cell_def Let_def R_def c_def)
qed

lemma end_cell_narrow:
  assumes w: "0 < width" and narrow: "list_all (\<lambda>c. char_width cw c = 1) line"
  shows "end_cell cw width line = (length line div width, length line mod width)"
proof -
  let ?st = "fold (wrap_step cw width) line wrap_init"
  define R where "R = length (result ?st)"
  define c where "c = current_width ?st"
  have eq: "R * width + c = length line" and le: "c \<le> width"
    using wrap_narrow_counters [OF w narrow] by (simp_all add: R_def c_def)
  have cell: "end_cell cw width line = (if width \<le> c then (Suc R, 0) else (R, c))"
    by (simp add: end_cell_def Let_def R_def c_def)
  show ?thesis
  proof (cases "width \<le> c")
    case True
    then have "length line = Suc R * width + 0" using eq le by simp
    then show ?thesis using True cell div_mod_decomp [OF w, of "Suc R"] by simp
  next
    case False
    then show ?thesis using cell eq div_mod_decomp [of c width R] by simp
  qed
qed

lemma cursor_cell_narrow:
  assumes "0 < width" and "list_all (\<lambda>c. char_width cw c = 1) line" and "n \<le> length line"
  shows "cursor_cell cw width line n = (n div width, n mod width)"
  using assms char_cell_narrow [OF assms(1,2)] end_cell_narrow [OF assms(1,2)]
  by (simp add: cursor_cell_def)

text \<open>
  C13.  For text of one-column characters the cursor's row and column are the cell at
  which the Wrapper placed the character under the cursor, or the cell after the last
  character when the cursor is at the end.
\<close>

lemma cursor_geometry_narrow:
  assumes w: "0 < width" and narrow: "list_all (\<lambda>c. char_width cw c = 1) (prompt @ input)"
  shows "(cursor_line_offset (cursor_geometry cw prompt input k width s sc),
          cursor_x_offset (cursor_geometry cw prompt input k width s sc))
         = cursor_cell cw width (prompt @ input) (length prompt + min k (length input))"
proof -
  let ?n = "length prompt + min k (length input)"
  let ?g = "cursor_geometry cw prompt input k width s sc"
  have "list_all (\<lambda>c. char_width cw c = 1) (take ?n (prompt @ input))"
    using narrow by (auto simp: list_all_iff dest: in_set_takeD)
  then have "cursor_visual_pos ?g = ?n"
    by (simp add: cursor_visual_pos_eq str_width_narrow min_def)
  moreover have "cursor_cell cw width (prompt @ input) ?n = (?n div width, ?n mod width)"
    using cursor_cell_narrow [OF w narrow] by simp
  ultimately show ?thesis by (simp add: cursor_offsets)
qed

text \<open>
  Where the Wrapper puts the \<open>n\<close>-th character of a line whose characters are no wider
  than the width: its cell, read as row times width plus column, is the width of the text
  before it plus the columns left empty at the ends of the rows completed before it.
\<close>

lemma char_cell_gaps:
  assumes wide: "list_all (\<lambda>c. char_width cw c \<le> width) line"
    and n: "n < length line" and pos: "0 < char_width cw (line ! n)"
  shows "str_width cw (take n line) + row_gaps cw width line n
           = fst (char_cell cw width line n) * width + snd (char_cell cw width line n)
         \<and> snd (char_cell cw width line n) < width"
proof -
  define T where "T = take (Suc n) line"
  define st where "st = fold (wrap_step cw width) T wrap_init"
  have inv: "wrap_inv cw width st" unfolding st_def by (rule wrap_inv_fold [OF wrap_inv_init])
  have nT: "list_all (\<lambda>c. char_width cw c \<le> width) T"
    using wide by (auto simp: list_all_iff T_def dest: in_set_takeD)
  have Tne: "T \<noteq> []" and lastT: "last T = line ! n"
    using n by (auto simp: T_def take_Suc_conv_app_nth)
  have "current_line st \<noteq> [] \<and> last (current_line st) = line ! n"
    using wrap_fold_last [OF Tne, of cw width wrap_init] lastT by (simp add: st_def)
  then have "char_width cw (line ! n) \<le> str_width cw (current_line st)"
    by (metis append_butlast_last_id le_add2 str_width_Cons str_width_Nil str_width_append add_0_right)
  then have cw_le: "char_width cw (line ! n) \<le> current_width st"
    using inv by (simp add: wrap_inv_def)
  have cell: "char_cell cw width line n = (length (result st), current_width st - char_width cw (line ! n))"
    by (simp add: char_cell_def Let_def st_def T_def)
  have "str_width cw T = str_width cw (take n line) + char_width cw (line ! n)"
    using n by (simp add: T_def take_Suc_conv_app_nth)
  moreover have "sum_list (map (str_width cw) (result st)) + row_gaps cw width line n
                 = length (result st) * width"
    unfolding row_gaps_def st_def T_def
    by (rule sum_list_gaps) (use wrap_fold_fits_width(1) [OF nT] in \<open>simp add: list_all_iff T_def\<close>)
  moreover have "current_width st - char_width cw (line ! n) < width"
    using cw_le pos wrap_fold_fits_width(2) [OF nT] inv by (simp add: wrap_inv_def st_def)
  ultimately show ?thesis
    using cell cw_le wrap_fold_width_split [of cw T width] by (simp add: st_def)
qed

lemma cursor_visual_pos_gaps:
  assumes wide: "list_all (\<lambda>c. char_width cw c \<le> width) (prompt @ input)"
    and k: "k < length input" and pos: "0 < char_width cw (input ! k)"
  shows "cursor_visual_pos (cursor_geometry cw prompt input k width s sc)
           + row_gaps cw width (prompt @ input) (length prompt + k)
         = fst (cursor_cell cw width (prompt @ input) (length prompt + k)) * width
           + snd (cursor_cell cw width (prompt @ input) (length prompt + k))
         \<and> snd (cursor_cell cw width (prompt @ input) (length prompt + k)) < width"
proof -
  have n: "length prompt + k < length (prompt @ input)" using k by simp
  then show ?thesis
    using char_cell_gaps [OF wide n] pos k
    by (simp add: nth_append cursor_cell_def cursor_visual_pos_eq)
qed

text \<open>
  C29.  Whatever the widths, as long as no character is wider than the width, the code
  never puts the cursor on a row below the row where the Wrapper placed the character under
  it (a character of positive width).  It may put it above: every row that a wide
  character left short shifts the division of line 97, as the witness of this theorem shows (C31).
\<close>

theorem cursor_row_not_below_char:
  assumes w: "0 < width" and wide: "list_all (\<lambda>c. char_width cw c \<le> width) (prompt @ input)"
    and k: "k < length input" and pos: "0 < char_width cw (input ! k)"
  shows "cursor_line_offset (cursor_geometry cw prompt input k width s sc)
         \<le> fst (cursor_cell cw width (prompt @ input) (length prompt + k))"
proof -
  let ?g = "cursor_geometry cw prompt input k width s sc"
  let ?c = "cursor_cell cw width (prompt @ input) (length prompt + k)"
  have "cursor_visual_pos ?g + row_gaps cw width (prompt @ input) (length prompt + k)
        = fst ?c * width + snd ?c" "snd ?c < width"
    using cursor_visual_pos_gaps [OF wide k pos] by simp_all
  moreover have "Suc (fst ?c) * width = fst ?c * width + width" by simp
  ultimately have "cursor_visual_pos ?g < Suc (fst ?c) * width" by linarith
  then have "cursor_visual_pos ?g div width < Suc (fst ?c)" by (rule less_mult_imp_div_less)
  then show ?thesis by (simp add: cursor_offsets)
qed

text \<open>
  C31.  The exact error of lines 94--98 on text whose characters are no wider than the
  width: the display column plus the columns left empty at the ends of the earlier rows
  is the Wrapper's cell (row times width plus column) of the character under the cursor.
  The code's cursor is on that cell exactly when no earlier row was left short.
\<close>

theorem cursor_column_gaps:
  assumes w: "0 < width" and wide: "list_all (\<lambda>c. char_width cw c \<le> width) (prompt @ input)"
    and k: "k < length input" and pos: "0 < char_width cw (input ! k)"
  shows "cursor_visual_pos (cursor_geometry cw prompt input k width s sc)
           + row_gaps cw width (prompt @ input) (length prompt + k)
         = fst (cursor_cell cw width (prompt @ input) (length prompt + k)) * width
           + snd (cursor_cell cw width (prompt @ input) (length prompt + k))
         \<and> ((cursor_line_offset (cursor_geometry cw prompt input k width s sc),
             cursor_x_offset (cursor_geometry cw prompt input k width s sc))
            = cursor_cell cw width (prompt @ input) (length prompt + k)
            \<longleftrightarrow> row_gaps cw width (prompt @ input) (length prompt + k) = 0)"
proof -
  let ?n = "length prompt + k"
  let ?g = "cursor_geometry cw prompt input k width s sc"
  obtain R col where cell: "cursor_cell cw width (prompt @ input) ?n = (R, col)" by fastforce
  have vp: "cursor_visual_pos ?g + row_gaps cw width (prompt @ input) ?n = R * width + col"
    and col: "col < width"
    using cursor_visual_pos_gaps [OF wide k pos, of s sc] cell by simp_all
  have "(cursor_line_offset ?g, cursor_x_offset ?g) = (R, col)
        \<longleftrightarrow> row_gaps cw width (prompt @ input) ?n = 0"
  proof
    assume "(cursor_line_offset ?g, cursor_x_offset ?g) = (R, col)"
    then have "cursor_visual_pos ?g = R * width + col"
      by (metis cursor_offsets(1,2) div_mult_mod_eq prod.inject)
    then show "row_gaps cw width (prompt @ input) ?n = 0" using vp by simp
  next
    assume "row_gaps cw width (prompt @ input) ?n = 0"
    then show "(cursor_line_offset ?g, cursor_x_offset ?g) = (R, col)"
      using vp div_mod_decomp [OF col, of R] by (simp add: cursor_offsets)
  qed
  then show ?thesis using vp cell by simp
qed

subsection \<open>The cursor row against the layout\<close>

text \<open>
  When no character of the prompt and input is wider than the width, the cursor's row
  within the input is at most the number of visual lines of the input, so its row in the
  viewport never passes the viewport's height.  It reaches the height exactly when the
  cursor sits on the row after the last visual line of a full viewport, and is then hidden.
\<close>

lemma cursor_line_offset_le_lines:
  assumes "0 < width" and "list_all (\<lambda>c. char_width cw c \<le> width) (prompt @ input)"
  shows "cursor_line_offset (cursor_geometry cw prompt input k width s sc)
         \<le> length (wrap_line cw (prompt @ input) width)"
proof -
  let ?g = "cursor_geometry cw prompt input k width s sc"
  have "cursor_visual_pos ?g \<le> str_width cw (prompt @ input)"
    unfolding cursor_visual_pos_eq by (rule str_width_take_le)
  also have "\<dots> \<le> length (wrap_line cw (prompt @ input) width) * width"
    using wrap_line_width_total [OF assms] .
  finally show ?thesis
    by (simp add: cursor_offsets div_le_of_le_mult)
qed

lemma cursor_line_visible_le:
  assumes "0 < width" and "list_all (\<lambda>c. char_width cw c \<le> width) (prompt @ input)"
  shows "cursor_line_visible (cursor_geometry cw prompt input k width
            (input_line_start (layout cw outs prompt input width h))
            (scroll (layout cw outs prompt input width h))) \<le> h"
  using cursor_line_offset_le_lines [OF assms, of k "input_line_start (layout cw outs prompt input width h)"
      "scroll (layout cw outs prompt input width h)"]
  by (simp add: cursor_offsets layout_simps)

text \<open>
  C15.  When the cursor's row within the input is one past the input's last visual line
  (the input ends exactly at a row boundary and the cursor is at its end) and the visual
  lines fill the viewport, no cursor is displayed: the scroll only counts visual lines.
\<close>

lemma map_cursor_hidden_past_last_row:
  assumes "cursor_line_offset (cursor_geometry cw prompt input k width s sc)
           = length (wrap_line cw (prompt @ input) width)"
    and "h \<le> total_visual_lines (layout cw outs prompt input width h)"
  shows "map_cursor cw prompt input k width
           (input_line_start (layout cw outs prompt input width h))
           (scroll (layout cw outs prompt input width h)) h = None"
proof -
  have "cursor_line_offset (cursor_geometry cw prompt input k width s sc)
        = cursor_line_offset (cursor_geometry cw prompt input k width s' sc')" for s' sc'
    by (simp add: cursor_fields)
  then show ?thesis
    using assms by (simp add: map_cursor_eq cursor_offsets layout_simps)
qed

declare cursor_geometry_def [model_eval] input_before_cursor_take [model_eval]
  map_cursor_eq [model_eval] spec_map_cursor_def [model_eval] cursor_cell_def [model_eval]
  char_cell_def [model_eval] end_cell_def [model_eval] row_gaps_def [model_eval]

end
