(* ===== verification/App.thy ===== *)
theory App
  imports Prelude
begin

text \<open>
  The application state that the renderer reads, \<open>crate::app::App\<close>.  Its source is
  not part of the repository fragment, so this record follows the specification's input
  contract (section 6): the output history (\<open>app.output\<close>, a keyword in Isabelle, hence
  \<open>output_lines\<close>), the input buffer, the cursor's character
  offset into it, the prompt (the value of \<open>app.prompt()\<close>), the mode and the current
  directory as displayed.  The renderer only reads it.
\<close>

datatype app_mode = Normal | NavigationList | ShortcutSelection

record 'c app =
  output_lines :: "'c list list"
  input :: "'c list"
  cursor_pos :: nat
  prompt :: "'c list"
  mode :: app_mode
  current_dir :: string

end
