(* ===== verification/Frame.thy ===== *)
theory Frame
  imports Prelude
begin

text \<open>
  The drawing surface, ratatui's \<open>Frame\<close>, as seen through the calls the renderer makes.
  ratatui is an external library; only what the code relies on is modelled.  A frame is
  the list of drawing commands issued so far, in order: \<open>render_widget\<close> appends the
  widget with its area, \<open>set_cursor\<close> appends a cursor placement, and the cursor the
  terminal shows is the last placement (\<open>frame_cursor\<close>).  \<open>rect\<close> is ratatui's
  \<open>Rect\<close> with \<open>u16\<close> fields; \<open>block_inner\<close> is \<open>Block::inner\<close> for a block with
  all four borders and a title on the top border, written with Rust's saturating \<open>u16\<close>
  operations; a rectangle \<open>fits\<close> the \<open>u16\<close> coordinate space when its right and
  bottom edges are representable, as for every area obtained from a terminal's size.
\<close>

record rect =
  rect_x :: u16
  rect_y :: u16
  rect_width :: u16
  rect_height :: u16

datatype color = Black | Cyan | Gray | DarkGray

record style =
  fg :: "color option"
  bg :: "color option"

definition style_default :: style where
  "style_default = \<lparr>fg = None, bg = None\<rparr>"

datatype 'c widget =
    BorderedBlock style string
  | TextParagraph "'c list list"
  | SpanParagraph "(string \<times> style) list"

datatype 'c frame_op = RenderWidget "'c widget" rect | SetCursor u16 u16

type_synonym 'c frame = "'c frame_op list"

text \<open>
  \<open>Paragraph::new\<close> turns its text into rows with ratatui's \<open>Text::raw\<close>: the empty
  text is one empty row, any other text is cut by \<open>str::lines\<close>.  That cuts at every
  newline \<open>nl\<close>, a final newline does not start a row, and a carriage return \<open>cr\<close>
  right before a newline is dropped with it; a last row not ended by a newline is kept as
  it is, a trailing carriage return included.  \<open>nl\<close> and \<open>cr\<close> stand for the
  characters \<open>'\n'\<close> and \<open>'\r'\<close> of the character type.
\<close>

fun split_nl :: "'c \<Rightarrow> 'c list \<Rightarrow> 'c list \<Rightarrow> 'c list list" where
  "split_nl nl cur [] = [cur]"
| "split_nl nl cur (c # cs) =
     (if c = nl then cur # split_nl nl [] cs else split_nl nl (cur @ [c]) cs)"

definition strip_cr :: "'c \<Rightarrow> 'c list \<Rightarrow> 'c list" where
  "strip_cr cr l = (if l \<noteq> [] \<and> last l = cr then butlast l else l)"

definition str_lines :: "'c \<Rightarrow> 'c \<Rightarrow> 'c list \<Rightarrow> 'c list list" where
  "str_lines nl cr s =
     (if s = [] then [[]]
      else let ps = split_nl nl [] s
           in map (strip_cr cr) (butlast ps) @ (if last s = nl then [] else [last ps]))"

definition paragraph_new :: "'c \<Rightarrow> 'c \<Rightarrow> 'c list \<Rightarrow> 'c widget" where
  "paragraph_new nl cr text = TextParagraph (str_lines nl cr text)"

definition render_widget :: "'c widget \<Rightarrow> rect \<Rightarrow> 'c frame \<Rightarrow> 'c frame" where
  "render_widget w area f = f @ [RenderWidget w area]"

definition set_cursor :: "u16 \<Rightarrow> u16 \<Rightarrow> 'c frame \<Rightarrow> 'c frame" where
  "set_cursor x y f = f @ [SetCursor x y]"

fun frame_cursor :: "'c frame \<Rightarrow> (u16 \<times> u16) option" where
  "frame_cursor [] = None"
| "frame_cursor (RenderWidget w r # ops) = frame_cursor ops"
| "frame_cursor (SetCursor x y # ops) =
     (case frame_cursor ops of None \<Rightarrow> Some (x, y) | Some p \<Rightarrow> Some p)"

definition u16_saturating_add :: "u16 \<Rightarrow> u16 \<Rightarrow> u16" where
  "u16_saturating_add a b = word_of_nat (min (unat a + unat b) 65535)"

definition u16_saturating_sub :: "u16 \<Rightarrow> u16 \<Rightarrow> u16" where
  "u16_saturating_sub a b = word_of_nat (unat a - unat b)"

definition rect_right :: "rect \<Rightarrow> u16" where
  "rect_right r = u16_saturating_add (rect_x r) (rect_width r)"

definition rect_bottom :: "rect \<Rightarrow> u16" where
  "rect_bottom r = u16_saturating_add (rect_y r) (rect_height r)"

definition block_inner :: "rect \<Rightarrow> rect" where
  "block_inner area =
     (let x1 = min (u16_saturating_add (rect_x area) 1) (rect_right area);
          w1 = u16_saturating_sub (rect_width area) 1;
          y1 = min (u16_saturating_add (rect_y area) 1) (rect_bottom area);
          h1 = u16_saturating_sub (rect_height area) 1
      in \<lparr>rect_x = x1, rect_y = y1,
          rect_width = u16_saturating_sub w1 1, rect_height = u16_saturating_sub h1 1\<rparr>)"

definition fits :: "rect \<Rightarrow> bool" where
  "fits r \<longleftrightarrow> unat (rect_x r) + unat (rect_width r) < 65536
              \<and> unat (rect_y r) + unat (rect_height r) < 65536"

text \<open>
  Where drawing commands land: a rectangle within another, a cell within a rectangle, and
  a frame all of whose commands stay within an area.
\<close>

definition rect_within :: "rect \<Rightarrow> rect \<Rightarrow> bool" where
  "rect_within r a \<longleftrightarrow>
     unat (rect_x a) \<le> unat (rect_x r)
     \<and> unat (rect_x r) + unat (rect_width r) \<le> unat (rect_x a) + unat (rect_width a)
     \<and> unat (rect_y a) \<le> unat (rect_y r)
     \<and> unat (rect_y r) + unat (rect_height r) \<le> unat (rect_y a) + unat (rect_height a)"

definition cell_within :: "u16 \<Rightarrow> u16 \<Rightarrow> rect \<Rightarrow> bool" where
  "cell_within x y a \<longleftrightarrow>
     unat (rect_x a) \<le> unat x \<and> unat x < unat (rect_x a) + unat (rect_width a)
     \<and> unat (rect_y a) \<le> unat y \<and> unat y < unat (rect_y a) + unat (rect_height a)"

fun op_within :: "rect \<Rightarrow> 'c frame_op \<Rightarrow> bool" where
  "op_within a (RenderWidget w r) = rect_within r a"
| "op_within a (SetCursor x y) = cell_within x y a"

definition frame_within :: "rect \<Rightarrow> 'c frame \<Rightarrow> bool" where
  "frame_within a f \<longleftrightarrow> list_all (op_within a) f"

subsection \<open>Lemmas\<close>

lemma unat_word_of_nat_small: "n < 65536 \<Longrightarrow> unat (word_of_nat n :: u16) = n"
  by (simp add: unat_of_nat)

lemma unat_u16_saturating_add:
  "unat (u16_saturating_add a b) = min (unat a + unat b) 65535"
  by (simp add: u16_saturating_add_def unat_word_of_nat_small)

lemma unat_u16_saturating_sub: "unat (u16_saturating_sub a b) = unat a - unat b"
proof -
  have "unat a < 65536" using unsigned_less [of a] by simp
  then show ?thesis by (simp add: u16_saturating_sub_def unat_word_of_nat_small)
qed

lemma unat_min_u16: "unat (min a b :: u16) = min (unat a) (unat b)"
  by (simp add: min_def word_le_nat_alt)

lemma block_inner_unat:
  "unat (rect_x (block_inner r)) = min (min (unat (rect_x r) + 1) 65535)
                                       (min (unat (rect_x r) + unat (rect_width r)) 65535)"
  "unat (rect_width (block_inner r)) = unat (rect_width r) - 2"
  "unat (rect_y (block_inner r)) = min (min (unat (rect_y r) + 1) 65535)
                                       (min (unat (rect_y r) + unat (rect_height r)) 65535)"
  "unat (rect_height (block_inner r)) = unat (rect_height r) - 2"
  by (simp_all add: block_inner_def Let_def unat_min_u16 unat_u16_saturating_add
      unat_u16_saturating_sub rect_right_def rect_bottom_def)

lemma block_inner_fits: "fits r \<Longrightarrow> fits (block_inner r)"
  by (auto simp: fits_def block_inner_unat min_def)

lemma block_inner_within: "fits r \<Longrightarrow> rect_within (block_inner r) r"
  by (auto simp: rect_within_def fits_def block_inner_unat min_def)

lemma block_inner_origin:
  assumes "fits area" and "0 < unat (rect_width area)" and "0 < unat (rect_height area)"
  shows "unat (rect_x (block_inner area)) = unat (rect_x area) + 1"
    and "unat (rect_y (block_inner area)) = unat (rect_y area) + 1"
  using assms by (simp_all add: block_inner_unat fits_def)

lemma frame_cursor_append_set:
  "frame_cursor (f @ [SetCursor x y]) = Some (x, y)"
  by (induction f rule: frame_cursor.induct) simp_all

lemma frame_cursor_append_widget:
  "frame_cursor (f @ [RenderWidget w r]) = frame_cursor f"
  by (induction f rule: frame_cursor.induct) (simp_all split: option.splits)

lemma split_nl_no_nl:
  "nl \<notin> set xs \<Longrightarrow> split_nl nl cur xs = [cur @ xs]"
  by (induction xs arbitrary: cur) auto

lemma split_nl_append_nl:
  "nl \<notin> set xs \<Longrightarrow> split_nl nl cur (xs @ nl # ys) = (cur @ xs) # split_nl nl [] ys"
  by (induction xs arbitrary: cur) auto

lemma length_split_nl: "length (split_nl nl cur xs) = Suc (count_list xs nl)"
  by (induction xs arbitrary: cur) auto

lemma split_nl_not_Nil [simp]: "split_nl nl cur xs \<noteq> []"
  using length_split_nl [of nl cur xs] by (metis length_0_conv nat.distinct(1))

lemma length_str_lines:
  "s \<noteq> [] \<Longrightarrow> last s \<noteq> nl \<Longrightarrow> length (str_lines nl cr s) = Suc (count_list s nl)"
  by (simp add: str_lines_def Let_def length_split_nl)

lemma strip_cr_id: "l = [] \<or> last l \<noteq> cr \<Longrightarrow> strip_cr cr l = l"
  by (auto simp: strip_cr_def)

declare frame_within_def [model_eval] rect_within_def [model_eval] cell_within_def [model_eval]
  fits_def [model_eval] str_lines_def [model_eval] strip_cr_def [model_eval]
  paragraph_new_def [model_eval]

end
