(* ===== verification/Render.thy ===== *)
theory Render
  imports Cursor App Frame
begin

text \<open>
  The drawing entry point \<open>render_terminal\<close> of \<^verbatim>\<open>src/src/ui/terminal.rs\<close>
  (lines 42--114), composed the way the code composes it: the bordered block is drawn on
  the whole area; the Layout Engine runs on the inner area's width (at least 1) and
  height; the visible lines are joined with newlines (\<open>join_with\<close>, line 83) into the
  text of one paragraph, which ratatui cuts into rows again; the Cursor Mapper runs on
  the layout's \<open>input_line_start\<close> and \<open>scroll\<close>; the cursor cell is translated by the
  inner area's origin with wrapping \<open>u16\<close> addition; and the cursor is set only when its
  row is inside the viewport.  \<open>nl\<close> and \<open>cr\<close> are the characters \<open>'\n'\<close> and
  \<open>'\r'\<close>.  The abbreviations name the values the function computes on the way.  The
  lemmas give the exact sequence of drawing commands, show that the paragraph's rows are
  the visible lines when no text contains a line break and how many they are when one
  does, that a cursor the render sets lies inside the inner area when that has a column,
  and that the two \<open>u16\<close> additions of lines 107--108 cannot
  overflow (which would panic in a debug build) as long as no character is wider than the
  viewport.
\<close>

definition terminal_block :: "'c widget" where
  "terminal_block = BorderedBlock \<lparr>fg = Some DarkGray, bg = None\<rparr> '' Terminal ''"

fun join_with :: "'c \<Rightarrow> 'c list list \<Rightarrow> 'c list" where
  "join_with sep [] = []"
| "join_with sep [l] = l"
| "join_with sep (l # ls) = l @ sep # join_with sep ls"

definition render_terminal ::
  "'c width_fn \<Rightarrow> 'c \<Rightarrow> 'c \<Rightarrow> 'c frame \<Rightarrow> rect \<Rightarrow> 'c app \<Rightarrow> 'c frame" where
  "render_terminal cw nl cr f area app =
     (let block = terminal_block;
          inner_area = block_inner area;
          f = render_widget block area f;
          width = unat (max (rect_width inner_area) 1);
          available_height = unat (rect_height inner_area);
          lay = layout cw (output_lines app) (prompt app) (input app) width available_height;
          text = join_with nl (visible_lines lay);
          f = render_widget (paragraph_new nl cr text) inner_area f;
          g = cursor_geometry cw (prompt app) (input app) (cursor_pos app) width
                (input_line_start lay) (scroll lay);
          cursor_x = rect_x inner_area + word_of_nat (cursor_x_offset g);
          cursor_y = rect_y inner_area + word_of_nat (cursor_line_visible g)
      in if cursor_line_visible g < available_height then set_cursor cursor_x cursor_y f else f)"

abbreviation term_width :: "rect \<Rightarrow> nat" where
  "term_width area \<equiv> unat (max (rect_width (block_inner area)) 1)"

abbreviation term_height :: "rect \<Rightarrow> nat" where
  "term_height area \<equiv> unat (rect_height (block_inner area))"

abbreviation term_layout :: "'c width_fn \<Rightarrow> rect \<Rightarrow> 'c app \<Rightarrow> 'c layout" where
  "term_layout cw area app \<equiv>
     layout cw (output_lines app) (prompt app) (input app) (term_width area) (term_height area)"

abbreviation term_rows :: "'c width_fn \<Rightarrow> 'c \<Rightarrow> 'c \<Rightarrow> rect \<Rightarrow> 'c app \<Rightarrow> 'c list list" where
  "term_rows cw nl cr area app \<equiv> str_lines nl cr (join_with nl (visible_lines (term_layout cw area app)))"

abbreviation term_cursor :: "'c width_fn \<Rightarrow> rect \<Rightarrow> 'c app \<Rightarrow> cursor_geom" where
  "term_cursor cw area app \<equiv>
     cursor_geometry cw (prompt app) (input app) (cursor_pos app) (term_width area)
       (input_line_start (term_layout cw area app)) (scroll (term_layout cw area app))"

subsection \<open>The drawing commands\<close>

lemma render_terminal_commands:
  "render_terminal cw nl cr f area app =
     f @ [RenderWidget terminal_block area,
          RenderWidget (TextParagraph (term_rows cw nl cr area app)) (block_inner area)]
       @ (if cursor_line_visible (term_cursor cw area app) < term_height area
          then [SetCursor (rect_x (block_inner area) + word_of_nat (cursor_x_offset (term_cursor cw area app)))
                          (rect_y (block_inner area) + word_of_nat (cursor_line_visible (term_cursor cw area app)))]
          else [])"
  by (simp add: render_terminal_def Let_def render_widget_def set_cursor_def paragraph_new_def)

lemma unat_max_one: "unat (max (w::u16) 1) = max (unat w) 1"
  by (simp add: max_def word_le_nat_alt)

lemma term_width_pos: "0 < term_width area"
  by (simp add: unat_max_one)

lemma render_terminal_frame_cursor:
  "frame_cursor (render_terminal cw nl cr f area app) =
     (case map_cursor cw (prompt app) (input app) (cursor_pos app) (term_width area)
             (input_line_start (term_layout cw area app)) (scroll (term_layout cw area app))
             (term_height area) of
        None \<Rightarrow> frame_cursor f
      | Some (x, y) \<Rightarrow> Some (rect_x (block_inner area) + word_of_nat x,
                            rect_y (block_inner area) + word_of_nat y))"
proof -
  have "frame_cursor (f @ [RenderWidget a b, RenderWidget c d] @ [SetCursor x y]) = Some (x, y)"
    for a b c d x y
    using frame_cursor_append_set [of "f @ [RenderWidget a b, RenderWidget c d]"] by simp
  moreover have "frame_cursor (f @ [RenderWidget a b, RenderWidget c d]) = frame_cursor f"
    for a b c d
    using frame_cursor_append_widget [of "f @ [RenderWidget a b]"] frame_cursor_append_widget [of f]
    by simp
  ultimately show ?thesis
    by (simp add: render_terminal_commands map_cursor_eq del: append_assoc)
qed

subsection \<open>Bounds on the \<open>u16\<close> cursor coordinates\<close>

lemma unat_add_word_of_nat:
  "unat a + n < 65536 \<Longrightarrow> unat (a + word_of_nat n :: u16) = unat a + n"
  by (simp add: unat_word_ariths unat_word_of_nat_small)

lemma cursor_x_offset_room:
  assumes "fits area"
  shows "unat (rect_x (block_inner area)) + cursor_x_offset (term_cursor cw area app) < 65536"
proof -
  let ?g = "term_cursor cw area app"
  have lt: "cursor_x_offset ?g < term_width area"
    using term_width_pos [of area] by (simp add: cursor_offsets)
  have fi: "unat (rect_x (block_inner area)) + unat (rect_width (block_inner area)) < 65536"
    using block_inner_fits [OF assms] by (simp add: fits_def)
  have x0: "unat (rect_x (block_inner area)) < 65536"
    using unsigned_less [of "rect_x (block_inner area)"] by simp
  show ?thesis
  proof (cases "unat (rect_width (block_inner area)) = 0")
    case True
    then have "cursor_x_offset ?g = 0" using lt by (simp add: unat_max_one)
    then show ?thesis using x0 by simp
  next
    case False
    then show ?thesis using lt fi by (simp add: unat_max_one)
  qed
qed

lemma render_terminal_cursor_cell:
  assumes "fits area" and "frame_cursor (render_terminal cw nl cr [] area app) = Some (cx, cy)"
  obtains x y where
    "map_cursor cw (prompt app) (input app) (cursor_pos app) (term_width area)
       (input_line_start (term_layout cw area app)) (scroll (term_layout cw area app))
       (term_height area) = Some (x, y)"
    and "unat cx = unat (rect_x (block_inner area)) + x"
    and "unat cy = unat (rect_y (block_inner area)) + y"
proof -
  let ?g = "term_cursor cw area app"
  let ?L = "term_layout cw area app"
  obtain x y where mc: "map_cursor cw (prompt app) (input app) (cursor_pos app) (term_width area)
                          (input_line_start ?L) (scroll ?L) (term_height area) = Some (x, y)"
    and cx: "cx = rect_x (block_inner area) + word_of_nat x"
    and cy: "cy = rect_y (block_inner area) + word_of_nat y"
    using assms(2) by (auto simp: render_terminal_frame_cursor split: option.splits)
  have b: "y < term_height area"
    using map_cursor_bounds [OF term_width_pos mc] by simp
  have x: "x = cursor_x_offset ?g"
    using mc by (simp add: map_cursor_eq split: if_splits)
  have fy: "unat (rect_y (block_inner area)) + term_height area < 65536"
    using block_inner_fits [OF assms(1)] by (simp add: fits_def)
  have "unat cx = unat (rect_x (block_inner area)) + x"
    using cursor_x_offset_room [OF assms(1), of cw app] x cx unat_add_word_of_nat by simp
  moreover have "unat cy = unat (rect_y (block_inner area)) + y"
    using b fy cy unat_add_word_of_nat by simp
  ultimately show ?thesis using mc that by blast
qed

text \<open>
  C17.  On an area that fits the \<open>u16\<close> coordinate space and whose inner area has at
  least one column, a cursor set by a render lies on a cell of the inner area, the
  \<open>u16\<close> additions being exact.  (Without an inner column the cursor is not inside:
  see C25.)
\<close>

lemma render_terminal_cursor_inside:
  assumes "fits area" and "0 < unat (rect_width (block_inner area))"
    and "frame_cursor (render_terminal cw nl cr [] area app) = Some (cx, cy)"
  shows "unat (rect_x (block_inner area)) \<le> unat cx
         \<and> unat cx < unat (rect_x (block_inner area)) + unat (rect_width (block_inner area))
         \<and> unat (rect_y (block_inner area)) \<le> unat cy
         \<and> unat cy < unat (rect_y (block_inner area)) + unat (rect_height (block_inner area))"
proof -
  obtain x y where mc: "map_cursor cw (prompt app) (input app) (cursor_pos app) (term_width area)
      (input_line_start (term_layout cw area app)) (scroll (term_layout cw area app))
      (term_height area) = Some (x, y)"
    and "unat cx = unat (rect_x (block_inner area)) + x"
    and "unat cy = unat (rect_y (block_inner area)) + y"
    using render_terminal_cursor_cell [OF assms(1,3)] .
  moreover have "term_width area = unat (rect_width (block_inner area))"
    using assms(2) by (simp add: unat_max_one)
  ultimately show ?thesis using map_cursor_bounds [OF term_width_pos mc] by simp
qed

text \<open>
  C18.  On an area that fits the \<open>u16\<close> coordinate space, and when no character of the
  prompt and input is wider than the wrap width, neither \<open>u16\<close> addition of lines
  107--108 overflows, whether or not the cursor is then set.
\<close>

lemma render_terminal_no_overflow:
  assumes "fits area"
    and "list_all (\<lambda>c. char_width cw c \<le> term_width area) (prompt app @ input app)"
  shows "unat (rect_x (block_inner area)) + cursor_x_offset (term_cursor cw area app) < 65536
         \<and> unat (rect_y (block_inner area)) + cursor_line_visible (term_cursor cw area app) < 65536"
proof -
  have "cursor_line_visible (term_cursor cw area app) \<le> term_height area"
    using cursor_line_visible_le [OF term_width_pos assms(2)] .
  moreover have "unat (rect_y (block_inner area)) + term_height area < 65536"
    using block_inner_fits [OF assms(1)] by (simp add: fits_def)
  ultimately show ?thesis
    using cursor_x_offset_room [OF assms(1)] by simp
qed

subsection \<open>The paragraph's rows\<close>

lemma split_join_with:
  "ls \<noteq> [] \<Longrightarrow> list_all (\<lambda>l. nl \<notin> set l) ls \<Longrightarrow> split_nl nl [] (join_with nl ls) = ls"
proof (induction nl ls rule: join_with.induct)
  case (2 sep l)
  then show ?case by (simp add: split_nl_no_nl)
next
  case (3 sep l v va)
  then show ?case by (simp add: split_nl_append_nl)
qed simp

lemma join_with_eq_Nil: "join_with nl ls = [] \<longleftrightarrow> ls = [] \<or> ls = [[]]"
  by (induction nl ls rule: join_with.induct) auto

lemma last_join_with:
  "ls \<noteq> [] \<Longrightarrow> last ls \<noteq> [] \<Longrightarrow> last (join_with nl ls) = last (last ls)"
  by (induction nl ls rule: join_with.induct) (auto simp: join_with_eq_Nil)

lemma last_join_with_empty:
  "2 \<le> length ls \<Longrightarrow> last ls = [] \<Longrightarrow> last (join_with nl ls) = nl"
proof (induction nl ls rule: join_with.induct)
  case (3 sep l v va)
  then show ?case by (cases va) auto
qed auto

lemma str_lines_join_with:
  assumes "list_all (\<lambda>l. nl \<notin> set l \<and> (l = [] \<or> last l \<noteq> cr)) ls"
  shows "str_lines nl cr (join_with nl ls) =
           (if ls = [] then [[]] else if 2 \<le> length ls \<and> last ls = [] then butlast ls else ls)"
proof -
  have nonl: "list_all (\<lambda>l. nl \<notin> set l) ls" and nocr: "\<forall>l \<in> set ls. l = [] \<or> last l \<noteq> cr"
    using assms by (auto simp: list_all_iff)
  have strip: "map (strip_cr cr) (butlast ls) = butlast ls"
    using nocr by (simp add: map_idI strip_cr_id in_set_butlastD)
  show ?thesis
  proof (cases "ls = [] \<or> ls = [[]]")
    case True
    then show ?thesis by (auto simp: str_lines_def)
  next
    case False
    then have ne: "ls \<noteq> []" and jne: "join_with nl ls \<noteq> []"
      by (auto simp: join_with_eq_Nil)
    have sp: "split_nl nl [] (join_with nl ls) = ls"
      using split_join_with [OF ne nonl] .
    show ?thesis
    proof (cases "last ls = []")
      case True
      with False ne have two: "2 \<le> length ls" by (cases ls rule: remdups_adj.cases) auto
      then have "last (join_with nl ls) = nl" using True by (rule last_join_with_empty)
      then show ?thesis using True two ne jne sp strip by (simp add: str_lines_def)
    next
      case lastne: False
      have "last (last ls) \<in> set (last ls)" using lastne by simp
      moreover have "last ls \<in> set ls" using ne by simp
      ultimately have "last (join_with nl ls) \<noteq> nl"
        using last_join_with [OF ne lastne] nonl by (auto simp: list_all_iff)
      then show ?thesis using lastne ne jne sp strip by (simp add: str_lines_def)
    qed
  qed
qed

lemma count_join_with:
  "ls \<noteq> [] \<Longrightarrow> count_list (join_with nl ls) nl = length ls - 1 + count_list (concat ls) nl"
  by (induction nl ls rule: join_with.induct) auto

lemma visible_lines_chars:
  "l \<in> set (visible_lines (term_layout cw area app)) \<Longrightarrow>
   set l \<subseteq> set (concat (output_lines app)) \<union> set (prompt app) \<union> set (input app)"
proof -
  assume l: "l \<in> set (visible_lines (term_layout cw area app))"
  then have "l \<in> set (visual_lines (term_layout cw area app))"
    by (simp add: layout_visible) (meson in_set_dropD)
  then have "set l \<subseteq> set (concat (visual_lines (term_layout cw area app)))" by auto
  also have "concat (visual_lines (term_layout cw area app))
             = concat (output_lines app) @ prompt app @ input app"
    by (rule layout_chars [OF term_width_pos])
  finally show ?thesis by auto
qed

lemma term_rows_eq:
  assumes "list_all (\<lambda>l. nl \<notin> set l \<and> cr \<notin> set l) (output_lines app)"
    and "nl \<notin> set (prompt app @ input app)" and "cr \<notin> set (prompt app @ input app)"
  shows "term_rows cw nl cr area app =
           (if visible_lines (term_layout cw area app) = [] then [[]]
            else if 2 \<le> length (visible_lines (term_layout cw area app))
                    \<and> last (visible_lines (term_layout cw area app)) = []
            then butlast (visible_lines (term_layout cw area app))
            else visible_lines (term_layout cw area app))"
proof -
  have "nl \<notin> set l \<and> (l = [] \<or> last l \<noteq> cr)"
    if l: "l \<in> set (visible_lines (term_layout cw area app))" for l
  proof -
    have "set l \<subseteq> set (concat (output_lines app)) \<union> set (prompt app) \<union> set (input app)"
      using visible_lines_chars [OF l] .
    moreover have "nl \<notin> set (concat (output_lines app))" "cr \<notin> set (concat (output_lines app))"
      using assms(1) by (auto simp: list_all_iff)
    ultimately have "nl \<notin> set l" "cr \<notin> set l" using assms(2,3) by auto
    then show ?thesis by auto
  qed
  then show ?thesis
    by (intro str_lines_join_with) (simp add: list_all_iff)
qed

text \<open>
  C22.  When no output line, prompt or input contains a newline or a carriage return, the
  rows of the drawn paragraph are the visible lines, one per row; only a last visible line
  that is empty and follows another is not a row of its own (the text ends with the
  newline before it), and with no visible line the paragraph has one empty row.
\<close>

theorem render_terminal_rows:
  assumes "list_all (\<lambda>l. nl \<notin> set l \<and> cr \<notin> set l) (output_lines app)"
    and "nl \<notin> set (prompt app @ input app)" and "cr \<notin> set (prompt app @ input app)"
  shows "term_rows cw nl cr area app =
           (if visible_lines (term_layout cw area app) = [] then [[]]
            else if 2 \<le> length (visible_lines (term_layout cw area app))
                    \<and> last (visible_lines (term_layout cw area app)) = []
            then butlast (visible_lines (term_layout cw area app))
            else visible_lines (term_layout cw area app))"
  using term_rows_eq [OF assms] .

text \<open>
  C23.  A newline inside a visible line breaks the one-row-per-visual-line correspondence:
  the Layout Engine counts such a line as one visual line (the newline has width 0), but
  ratatui starts a row at each newline of the joined text, so the paragraph has one row
  per visible line plus one per newline inside them (when the last visible line does not
  end the text with a newline).  So when a visible line holds a newline and the layout
  fills the viewport, the paragraph has more rows than the inner area, and the last rows,
  the input's, are not drawn.
\<close>

theorem render_terminal_rows_newlines:
  assumes "visible_lines (term_layout cw area app) \<noteq> []"
    and "last (visible_lines (term_layout cw area app)) \<noteq> []"
    and "last (last (visible_lines (term_layout cw area app))) \<noteq> nl"
  shows "length (term_rows cw nl cr area app)
           = length (visible_lines (term_layout cw area app))
             + count_list (concat (visible_lines (term_layout cw area app))) nl
         \<and> (nl \<in> set (concat (visible_lines (term_layout cw area app)))
            \<and> term_height area \<le> total_visual_lines (term_layout cw area app)
            \<longrightarrow> term_height area < length (term_rows cw nl cr area app))"
proof -
  let ?V = "visible_lines (term_layout cw area app)"
  have jne: "join_with nl ?V \<noteq> []" using assms(1,2) by (auto simp: join_with_eq_Nil)
  have "last (join_with nl ?V) \<noteq> nl" using assms by (simp add: last_join_with)
  then have len: "length (term_rows cw nl cr area app) = length ?V + count_list (concat ?V) nl"
    using jne assms(1) by (simp add: length_str_lines count_join_with)
  moreover have "term_height area < length (term_rows cw nl cr area app)"
    if "nl \<in> set (concat ?V)" and "term_height area \<le> total_visual_lines (term_layout cw area app)"
  proof -
    have "length ?V = term_height area" using that(2) by (simp add: layout_simps)
    moreover have "0 < count_list (concat ?V) nl" using that(1) by (metis count_list_0_iff neq0_conv)
    ultimately show ?thesis using len by simp
  qed
  ultimately show ?thesis by blast
qed

lemma term_rows_nth:
  assumes "list_all (\<lambda>l. nl \<notin> set l \<and> cr \<notin> set l) (output_lines app)"
    and "nl \<notin> set (prompt app @ input app)" and "cr \<notin> set (prompt app @ input app)"
    and "y < length (visible_lines (term_layout cw area app))"
    and "visible_lines (term_layout cw area app) ! y \<noteq> []"
  shows "y < length (term_rows cw nl cr area app)
         \<and> term_rows cw nl cr area app ! y = visible_lines (term_layout cw area app) ! y"
proof -
  let ?v = "visible_lines (term_layout cw area app)"
  have ne: "?v \<noteq> []" using assms(4) by auto
  have "y < length ?v - 1" if la: "last ?v = []"
  proof (rule ccontr)
    assume "\<not> y < length ?v - 1"
    then have "y = length ?v - 1" using assms(4) by simp
    then have "?v ! y = last ?v" using ne by (simp add: last_conv_nth)
    then show False using la assms(5) by simp
  qed
  then show ?thesis
    using term_rows_eq [OF assms(1-3), of cw area] assms(4) ne by (auto simp: nth_butlast)
qed

lemma block_inner_narrow:
  assumes "fits area" and "0 < unat (rect_width area)" and "unat (rect_width area) < 3"
  shows "rect_width (block_inner area) = 0"
    and "unat (rect_x (block_inner area)) = unat (rect_x area) + 1"
proof -
  show "rect_width (block_inner area) = 0"
    using assms(3) block_inner_unat(2) [of area] by (simp add: unat_eq_zero)
  show "unat (rect_x (block_inner area)) = unat (rect_x area) + 1"
    using assms by (simp add: block_inner_unat(1) fits_def)
qed

text \<open>
  C25.  On an area one or two columns wide the inner area has no column, yet the wrap
  width is clamped to 1 and a cursor may still be set: it is always set one column right
  of the area's left edge, which is the right border of an area two columns wide and lies
  outside an area one column wide.
\<close>

theorem render_terminal_narrow_cursor:
  assumes "fits area" and "0 < unat (rect_width area)" and "unat (rect_width area) < 3"
    and "frame_cursor (render_terminal cw nl cr [] area app) = Some (cx, cy)"
  shows "unat cx = unat (rect_x area) + 1
         \<and> unat (rect_x area) + unat (rect_width area) \<le> unat cx + 1"
proof -
  obtain x y where mc: "map_cursor cw (prompt app) (input app) (cursor_pos app) (term_width area)
                          (input_line_start (term_layout cw area app)) (scroll (term_layout cw area app))
                          (term_height area) = Some (x, y)"
    and cx: "cx = rect_x (block_inner area) + word_of_nat x"
    using assms(4) by (auto simp: render_terminal_frame_cursor split: option.splits)
  have "term_width area = 1"
    using block_inner_narrow(1) [OF assms(1-3)] by (simp add: unat_max_one)
  then have "x = 0" using map_cursor_bounds [OF term_width_pos mc] by simp
  then have "unat cx = unat (rect_x area) + 1"
    using cx block_inner_narrow(2) [OF assms(1-3)] by simp
  then show ?thesis using assms(3) by simp
qed

text \<open>
  C26.  On an area at most two rows high the inner area has no row: the render draws the
  block and a paragraph of one empty row and sets no cursor, whatever the output and the
  input.
\<close>

theorem render_terminal_flat_area:
  assumes "unat (rect_height area) < 3"
  shows "render_terminal cw nl cr f area app =
           f @ [RenderWidget terminal_block area, RenderWidget (TextParagraph [[]]) (block_inner area)]"
proof -
  have h: "term_height area = 0" using assms block_inner_unat(4) [of area] by simp
  then have "visible_lines (term_layout cw area app) = []" by (simp add: layout_simps)
  then show ?thesis using h by (simp add: render_terminal_commands str_lines_def)
qed

text \<open>
  For one-column text the cursor a render sets is at the column and row that the division
  of the prompt-and-input length up to the cursor by the width gives.
\<close>

lemma render_terminal_narrow_cell:
  assumes fits: "fits area"
    and narrow: "list_all (\<lambda>c. char_width cw c = 1) (prompt app @ input app)"
    and set: "frame_cursor (render_terminal cw nl cr [] area app) = Some (cx, cy)"
  shows "unat cx = unat (rect_x (block_inner area))
                   + (length (prompt app) + min (cursor_pos app) (length (input app))) mod term_width area
         \<and> unat cy = unat (rect_y (block_inner area))
                   + (input_line_start (term_layout cw area app)
                      + (length (prompt app) + min (cursor_pos app) (length (input app))) div term_width area
                      - scroll (term_layout cw area app))
         \<and> cursor_line_absolute (term_cursor cw area app)
           = input_line_start (term_layout cw area app)
             + (length (prompt app) + min (cursor_pos app) (length (input app))) div term_width area"
proof -
  let ?g = "term_cursor cw area app"
  let ?n = "length (prompt app) + min (cursor_pos app) (length (input app))"
  obtain x y where mc: "map_cursor cw (prompt app) (input app) (cursor_pos app) (term_width area)
      (input_line_start (term_layout cw area app)) (scroll (term_layout cw area app))
      (term_height area) = Some (x, y)"
    and cx: "unat cx = unat (rect_x (block_inner area)) + x"
    and cy: "unat cy = unat (rect_y (block_inner area)) + y"
    using render_terminal_cursor_cell [OF fits set] .
  have "list_all (\<lambda>c. char_width cw c = 1) (take ?n (prompt app @ input app))"
    using narrow by (auto simp: list_all_iff dest: in_set_takeD)
  then have vp: "cursor_visual_pos ?g = ?n"
    by (simp add: cursor_visual_pos_eq str_width_narrow min_def)
  then show ?thesis
    using mc cx cy by (simp add: map_cursor_eq cursor_offsets split: if_splits)
qed

text \<open>
  C28.  The three parts of the render agree: for one-column text without line breaks, a
  cursor the render sets on a character of the input (not past its end, and on a row not
  scrolled above the viewport) is on the cell of the drawn paragraph that shows that very
  character.
\<close>

theorem render_terminal_cursor_on_char:
  assumes fits: "fits area"
    and brk: "list_all (\<lambda>l. nl \<notin> set l \<and> cr \<notin> set l) (output_lines app)"
      "nl \<notin> set (prompt app @ input app)" "cr \<notin> set (prompt app @ input app)"
    and narrow: "list_all (\<lambda>c. char_width cw c = 1) (prompt app @ input app)"
    and k: "cursor_pos app < length (input app)"
    and row: "scroll (term_layout cw area app) \<le> cursor_line_absolute (term_cursor cw area app)"
    and set: "frame_cursor (render_terminal cw nl cr [] area app) = Some (cx, cy)"
  shows "unat cy - unat (rect_y (block_inner area)) < length (term_rows cw nl cr area app)
         \<and> unat cx - unat (rect_x (block_inner area))
             < length (term_rows cw nl cr area app ! (unat cy - unat (rect_y (block_inner area))))
         \<and> term_rows cw nl cr area app ! (unat cy - unat (rect_y (block_inner area)))
             ! (unat cx - unat (rect_x (block_inner area))) = input app ! cursor_pos app"
proof -
  let ?L = "term_layout cw area app"
  let ?w = "term_width area"
  let ?line = "prompt app @ input app"
  let ?n = "length (prompt app) + cursor_pos app"
  let ?y = "input_line_start ?L + ?n div ?w - scroll ?L"
  have pos: "unat cx - unat (rect_x (block_inner area)) = ?n mod ?w"
    "unat cy - unat (rect_y (block_inner area)) = ?y"
    "cursor_line_absolute (term_cursor cw area app) = input_line_start ?L + ?n div ?w"
    using render_terminal_narrow_cell [OF fits narrow set] k by simp_all
  have n: "?n < length ?line" using k by simp
  have wl: "?n div ?w < length (wrap_line cw ?line ?w)"
    "?n mod ?w < length (wrap_line cw ?line ?w ! (?n div ?w))"
    "wrap_line cw ?line ?w ! (?n div ?w) ! (?n mod ?w) = input app ! cursor_pos app"
    using wrap_line_narrow_nth [OF term_width_pos narrow n] by (simp_all add: nth_append)
  have vis: "?y < length (visible_lines ?L)"
    "visible_lines ?L ! ?y = wrap_line cw ?line ?w ! (?n div ?w)"
    using visible_lines_input_row [OF wl(1)] row pos(3) by simp_all
  then have "visible_lines ?L ! ?y \<noteq> []" using wl(2) by auto
  then have r: "?y < length (term_rows cw nl cr area app)"
    "term_rows cw nl cr area app ! ?y = wrap_line cw ?line ?w ! (?n div ?w)"
    using term_rows_nth [OF brk vis(1)] vis(2) by simp_all
  show ?thesis unfolding pos(1) pos(2) r(2) using r(1) wl(2,3) by blast
qed

text \<open>
  C32.  The counterpart of C28 at the end of the input: for one-column text without line
  breaks, a cursor at or past the end of the input (on a row not scrolled above the
  viewport) is on the cell right after the last character drawn, either at the end of the
  paragraph's last row or at the start of the row below it.
\<close>

theorem render_terminal_cursor_at_end:
  assumes fits: "fits area"
    and brk: "list_all (\<lambda>l. nl \<notin> set l \<and> cr \<notin> set l) (output_lines app)"
      "nl \<notin> set (prompt app @ input app)" "cr \<notin> set (prompt app @ input app)"
    and narrow: "list_all (\<lambda>c. char_width cw c = 1) (prompt app @ input app)"
    and k: "length (input app) \<le> cursor_pos app"
    and row: "scroll (term_layout cw area app) \<le> cursor_line_absolute (term_cursor cw area app)"
    and set: "frame_cursor (render_terminal cw nl cr [] area app) = Some (cx, cy)"
  shows "(Suc (unat cy - unat (rect_y (block_inner area))) = length (term_rows cw nl cr area app)
          \<and> unat cx - unat (rect_x (block_inner area))
            = length (term_rows cw nl cr area app ! (unat cy - unat (rect_y (block_inner area)))))
         \<or> (unat cy - unat (rect_y (block_inner area)) = length (term_rows cw nl cr area app)
            \<and> unat cx - unat (rect_x (block_inner area)) = 0)"
proof -
  let ?L = "term_layout cw area app"
  let ?w = "term_width area"
  let ?n = "length (prompt app @ input app)"
  let ?V = "visible_lines ?L"
  let ?rows = "term_rows cw nl cr area app"
  let ?y = "input_line_start ?L + ?n div ?w - scroll ?L"
  have pos: "unat cx - unat (rect_x (block_inner area)) = ?n mod ?w"
    "unat cy - unat (rect_y (block_inner area)) = ?y"
    "scroll ?L \<le> input_line_start ?L + ?n div ?w"
    using render_terminal_narrow_cell [OF fits narrow set, unfolded min_absorb2 [OF k]] row
    by simp_all
  have rows: "?rows = (if ?V = [] then [[]]
                        else if 2 \<le> length ?V \<and> last ?V = [] then butlast ?V else ?V)"
    by (rule term_rows_eq [OF brk])
  have "(Suc ?y = length ?V \<and> length (last ?V) = ?n mod ?w)
        \<or> (?y = length ?V \<and> ?n mod ?w = 0 \<and> (?V \<noteq> [] \<longrightarrow> last ?V \<noteq> []))"
    by (rule visible_lines_end [OF term_width_pos narrow pos(3)])
  then show ?thesis
  proof
    assume a: "Suc ?y = length ?V \<and> length (last ?V) = ?n mod ?w"
    then have ySuc: "Suc ?y = length ?V" by blast
    then have ne: "?V \<noteq> []" by auto
    have yV: "?y = length ?V - 1" by (simp flip: ySuc)
    show ?thesis
    proof (cases "2 \<le> length ?V \<and> last ?V = []")
      case True
      then have "length ?rows = ?y" "?n mod ?w = 0" using rows ne yV a by simp_all
      then show ?thesis unfolding pos(1) pos(2) by (intro disjI2) simp
    next
      case False
      have "?rows = ?V" unfolding rows by (simp only: if_not_P [OF ne] if_not_P [OF False])
      moreover have "?V ! ?y = last ?V" using ne yV by (simp add: last_conv_nth)
      ultimately show ?thesis unfolding pos(1) pos(2) using a by (intro disjI1) simp
    qed
  next
    assume b: "?y = length ?V \<and> ?n mod ?w = 0 \<and> (?V \<noteq> [] \<longrightarrow> last ?V \<noteq> [])"
    show ?thesis
    proof (cases "?V = []")
      case True
      then have "?rows = [[]]" "?y = 0" using rows b by simp_all
      then show ?thesis unfolding pos(1) pos(2) using b by (intro disjI1) simp
    next
      case False
      then have "last ?V \<noteq> []" using b by blast
      then have "?rows = ?V" using rows False by simp
      then show ?thesis unfolding pos(1) pos(2) using b by (intro disjI2) simp
    qed
  qed
qed

text \<open>
  C30.  On an area that fits the \<open>u16\<close> coordinate space and is at least three columns
  wide, every command a render issues stays within the area: the block covers it, the
  paragraph is inside it, and a cursor, when set, is on a cell of it.
\<close>

theorem render_terminal_within_area:
  assumes fits: "fits area" and wide: "3 \<le> unat (rect_width area)"
  shows "frame_within area (render_terminal cw nl cr [] area app)"
proof -
  let ?r = "render_terminal cw nl cr [] area app"
  let ?P = "[RenderWidget terminal_block area,
             RenderWidget (TextParagraph (term_rows cw nl cr area app)) (block_inner area)]"
  have "\<exists>C. ?r = ?P @ C \<and> (C = [] \<or> (\<exists>a b. C = [SetCursor a b]))"
    by (simp add: render_terminal_commands)
  then obtain C where r: "?r = ?P @ C" and c: "C = [] \<or> (\<exists>a b. C = [SetCursor a b])"
    by blast
  have p: "list_all (op_within area) ?P"
    using block_inner_within [OF fits] by (simp add: rect_within_def)
  have "op_within area (SetCursor a b)" if C: "C = [SetCursor a b]" for a b
  proof -
    have fc: "frame_cursor ?r = Some (a, b)"
      using frame_cursor_append_set [of ?P] r C by simp
    obtain x y where mc: "map_cursor cw (prompt app) (input app) (cursor_pos app) (term_width area)
        (input_line_start (term_layout cw area app)) (scroll (term_layout cw area app))
        (term_height area) = Some (x, y)"
      and a: "unat a = unat (rect_x (block_inner area)) + x"
      and b: "unat b = unat (rect_y (block_inner area)) + y"
      using render_terminal_cursor_cell [OF fits fc] .
    have xy: "x < term_width area" "y < term_height area"
      using map_cursor_bounds [OF term_width_pos mc] by simp_all
    have tw: "term_width area = unat (rect_width area) - 2"
      using wide by (simp add: unat_max_one block_inner_unat)
    have th: "term_height area = unat (rect_height area) - 2"
      by (simp add: block_inner_unat)
    have h: "0 < unat (rect_height area)" using xy(2) th by simp
    have o: "unat (rect_x (block_inner area)) = unat (rect_x area) + 1"
      "unat (rect_y (block_inner area)) = unat (rect_y area) + 1"
      using block_inner_origin [OF fits _ h] wide by simp_all
    have "x + 1 < unat (rect_width area)" "y + 1 < unat (rect_height area)"
      using xy tw th by linarith+
    then show ?thesis using a b o by (simp add: cell_within_def)
  qed
  then show ?thesis using r c p by (auto simp: frame_within_def)
qed

declare render_terminal_commands [model_eval] render_terminal_frame_cursor [model_eval]

end
