(* ===== verification/StatusBar.thy ===== *)
theory StatusBar
  imports App Frame
begin

text \<open>
  The status bar, \<open>render_status_bar\<close> of \<^verbatim>\<open>src/src/ui/terminal.rs\<close>
  (lines 116--139): one line of three styled spans, the mode label padded by a space on
  each side on a cyan background, a separating space, and the current directory in gray.
  The function is marked \<open>#[allow(dead_code)]\<close>: nothing in the fragment calls it.  The
  lemma shows the text the bar displays.
\<close>

definition mode_text :: "app_mode \<Rightarrow> string" where
  "mode_text m = (case m of
       Normal \<Rightarrow> ''NORMAL''
     | NavigationList \<Rightarrow> ''NAV''
     | ShortcutSelection \<Rightarrow> ''GOTO'')"

definition render_status_bar :: "'c frame \<Rightarrow> rect \<Rightarrow> 'c app \<Rightarrow> 'c frame" where
  "render_status_bar f area app =
     (let label = mode_text (mode app);
          status = [(CHR '' '' # label @ '' '', \<lparr>fg = Some Black, bg = Some Cyan\<rparr>),
                    ('' '', style_default),
                    (current_dir app, \<lparr>fg = Some Gray, bg = None\<rparr>)]
      in render_widget (SpanParagraph status) area f)"

fun span_text :: "'c widget \<Rightarrow> string" where
  "span_text (SpanParagraph spans) = concat (map fst spans)"
| "span_text w = []"

text \<open>
  C20.  The status bar draws one span paragraph whose text is the mode label between
  spaces, a space, and the current directory.
\<close>

lemma render_status_bar_text:
  "\<exists>w. render_status_bar f area app = f @ [RenderWidget w area]
       \<and> span_text w = CHR '' '' # mode_text (mode app) @ ''  '' @ current_dir app"
  by (simp add: render_status_bar_def render_widget_def Let_def)

end
