(* ===== verification/Spec2Isabelle.thy ===== *)
theory Spec2Isabelle
  imports Render StatusBar
begin

text \<open>
  \<^bold>\<open>A verified model of the terminal pane renderer of jerm.\<close>

  \<^bold>\<open>The program.\<close>  \<^verbatim>\<open>src/src/ui/terminal.rs\<close> renders the scrollable, line-wrapped
  text pane of an interactive terminal application with ratatui.  Its core is a text-layout
  and cursor-mapping engine in three parts that run once per frame, with no state between
  frames: the Wrapper \<open>wrap_line\<close> (lines 13--39) cuts a logical line into visual lines of
  bounded display width; the Layout Engine (the first half of \<open>render_terminal\<close>, lines
  54--85) wraps the output history and the live input line (prompt followed by the typed
  text), computes the scroll offset that keeps the bottom visible, and draws the visible
  lines; the Cursor Mapper (lines 87--113) turns the cursor's character offset into a cell
  of the viewport, or no cursor.  \<open>render_status_bar\<close> (lines 116--139) formats a status
  line.  The application state (\<open>crate::app::App\<close>), the width tables of the
  \<open>unicode_width\<close> crate and ratatui's drawing surface are outside the fragment.

  \<^bold>\<open>The theories.\<close>
  \<^item> \<open>Prelude\<close>: strings as character lists, the \<open>unicode_width\<close> interface as a
    parameter \<open>cw\<close> (\<open>char_width\<close> is \<open>ch.width().unwrap_or(0)\<close>, \<open>str_width\<close> is
    \<open>UnicodeWidthStr::width\<close>), \<open>u16\<close>, Rust's \<open>Iterator::nth\<close> as \<open>nth_opt\<close>, the
    collections \<open>width_simps\<close> and \<open>model_eval\<close>, a sample width table \<open>demo_width\<close>
    used by the concrete instances, and shared arithmetic lemmas.
  \<^item> \<open>Wrap\<close>: the Wrapper.  Its loop state (\<open>result\<close>, \<open>current_line\<close>,
    \<open>current_width\<close>) is the record \<open>wrap_state\<close>; \<open>wrap_step\<close> is one iteration of
    \<open>for ch in line.chars()\<close>, and \<open>wrap_line\<close> folds it over the characters after the
    \<open>width == 0\<close> guard.  Lemmas: the loop invariant \<open>wrap_inv\<close> and its preservation;
    completeness (C2); every line fits or is one overflowing character (C1); every break is
    forced (C3); the empty first line when the first character is too wide (C4); the line
    count of narrow text (C5); the degenerate width (C19); and the equivalence of the loop
    with \<open>greedy_lines\<close>, a recursive reference for the contract of section 4.1, up to
    that empty first line (C21).  \<open>wrap_contract\<close> states that contract as a predicate
    on decompositions; the greedy decomposition is the only one satisfying it, so the
    loop's output, its empty first line removed, is exactly what section 4.1 allows (C24).
    \<open>chunks\<close> (a \<open>function\<close> with a length measure) is the reference for one-column text:
    the loop cuts such text into chunks of the width, which locates every character.
  \<^item> \<open>Layout\<close>: the Layout Engine, \<open>layout\<close>, whose record holds the locals
    \<open>visual_lines\<close>, \<open>input_line_start\<close>, \<open>total_visual_lines\<close>, \<open>scroll\<close> and
    \<open>visible_lines\<close>; the loop over \<open>app.output\<close> is \<open>wrap_output\<close>.  Lemmas: the
    input's lines are contiguous and last (C9), the layout is complete (C8), the visible
    block has \<open>min total height\<close> rows (C6), nothing is scrolled when everything fits (C10),
    and the last row shown is the input's last row (C7); where each visual line of the
    input, and the end of a one-column input, appear among the visible lines.
  \<^item> \<open>Utf8Slice\<close>: the byte-level view of lines 89--93: \<open>char_indices\<close> with UTF-8 byte
    offsets, \<open>input.len()\<close> as \<open>byte_len\<close>, and the slice \<open>&input[..i]\<close> as
    \<open>str_slice_to\<close>, whose panic off a character boundary is \<open>None\<close>; the UTF-8 length of
    a character is a parameter \<open>clen\<close> (\<open>utf8_len\<close> on code points for the instances).
  \<^item> \<open>Cursor\<close>: the Cursor Mapper, \<open>input_before_cursor\<close>, \<open>cursor_geometry\<close> (the
    locals \<open>cursor_visual_pos\<close> to \<open>cursor_line_visible\<close>) and \<open>map_cursor\<close> (the guard
    of line 111).  Two reference notions that are not code: \<open>spec_map_cursor\<close>, the
    contract of section 4.3 of the specification, and \<open>cursor_cell\<close>, the cell where the
    Wrapper places the character under the cursor.  Lemmas: clamping of the offset (C16);
    visible and hidden rows (C14); refinement of the contract where the row is not above
    the viewport (C11) and the divergence where it is (C12); agreement with the Wrapper's
    placement for one-column text (C13); the cursor hidden on the row after a full input
    line (C15); the byte-level slice never panics and equals \<open>input_before_cursor\<close>
    (C27); the row of line 97 is never below the Wrapper's row of the character, whatever
    the widths (C29); exactly, the display column plus \<open>row_gaps\<close>, the columns left
    empty at the ends of the earlier rows, is the Wrapper's cell, so the code's cursor is
    right exactly when no earlier row was left short (C31).
  \<^item> \<open>App\<close>, \<open>Frame\<close>: the interfaces.  \<open>app\<close> is the snapshot of the application state
    the renderer reads (modelled from the specification's input contract).  A frame is the
    list of drawing commands (\<open>RenderWidget\<close>, \<open>SetCursor\<close>) issued so far;
    \<open>block_inner\<close> is ratatui's \<open>Block::inner\<close> for a block with all borders, and
    \<open>str_lines\<close> is how \<open>Paragraph::new\<close> cuts its text into rows (\<open>Text::raw\<close>: one
    empty row for the empty text, otherwise \<open>str::lines\<close>).
  \<^item> \<open>Render\<close>: \<open>render_terminal\<close> composed from the parts as the code composes them,
    with the \<open>u16\<close> cursor translation of lines 107--108.  Lemmas: a cursor set on an area
    whose inner area has a column is on a cell of the inner area (C17); no \<open>u16\<close> overflow
    (C18); the rows of the paragraph, the joined visible lines cut again at newlines by
    ratatui, are the visible lines when no text contains a line break (C22), and every
    newline inside a visible line adds a row, so a full viewport overflows (C23); on an
    area one or two columns wide the cursor is set on the right border or outside the area
    (C25); on an area at most two rows high nothing is visible and no cursor is set (C26);
    for one-column text without line breaks a cursor set on a character is on the cell of
    the paragraph showing that character (C28), the theorem in which the Wrapper, the
    Layout Engine, the paragraph and the Cursor Mapper meet, and its counterpart for a
    cursor at the end of the input, right after the last character drawn (C32); on an area
    at least three columns wide every command of the frame stays within the area (C30, with
    the predicates \<open>frame_within\<close> of theory \<open>Frame\<close>).
  \<^item> \<open>StatusBar\<close>: \<open>mode_text\<close> and \<open>render_status_bar\<close> (C20).
  \<^item> This theory: the concrete inputs and the witnesses of the theorems with hypotheses,
    each theorem applied where its hypotheses hold and the model evaluated by the
    simplifier; the witnesses also exhibit the findings on small renders.

  \<^bold>\<open>Bounds and termination.\<close>  Every loop of the source is a \<open>for\<close> loop over a finite
  sequence, modelled as \<open>fold\<close> or \<open>concat (map \<dots>)\<close>, or a structural recursion
  (\<open>char_indices_from\<close>, \<open>split_nl\<close>, \<open>join_with\<close>); no fuel is needed and every
  definition is total.  The one recursion that is not structural is the reference
  \<open>chunks\<close>, whose termination is proved by the length of the list.  \<open>usize\<close> is
  \<open>nat\<close>: the counts and widths involved are bounded by the text rendered and cannot wrap;
  the only fixed-width arithmetic is ratatui's \<open>u16\<close>, kept as \<open>16 word\<close>.  The two
  additions of lines 107--108 are modelled with wrap-around, as a release build computes
  them; a debug build panics on overflow instead, and C18 gives the condition under which
  neither overflows, so that both builds agree (C17 is stated under the same exactness).

  \<^bold>\<open>Not modelled.\<close>  Two external libraries enter only through the operations the
  renderer calls.  Of \<open>unicode_width\<close>, the interface: the character width is the
  parameter \<open>cw\<close> and the string width the sum of the character widths, as the crate
  computes it for text without grapheme-cluster rules; its tables and those rules (emoji
  with joiners, variation selectors) are not modelled.  Of ratatui, theory \<open>Frame\<close>
  models \<open>Rect\<close>, \<open>Block::inner\<close>, the cutting of a paragraph's text into rows and the
  two calls that issue drawing commands; the painting of cells into the screen buffer,
  the styles, and the clipping of rows and columns are not (a frame records what is drawn
  and where, not the resulting screen), so statements about what a cell shows are made
  about the paragraph's rows (C28, C32).  Key handling, the event loop and the application
  state's mutation are not part of \<^verbatim>\<open>src/\<close>, which holds only the renderer, and section 1
  of the specification puts them out of scope; the renderer only reads the state, which
  \<open>app\<close> records (from the specification's input contract).  No loop of the fragment can
  run forever and the renderer has no state between frames, so there is no liveness
  property to state.

  \<^bold>\<open>Findings.\<close>  The cursor of a row scrolled above the viewport is drawn on the top row
  (C12); dividing the display column by the width puts the cursor above or before its cell
  once a wide character has been moved to the next row, by exactly the columns left empty
  (C29, C31, whose witnesses exhibit it on two two-column characters); the cursor vanishes
  when the input ends exactly at a row boundary in a full viewport (C15); the Wrapper emits
  an empty first line when the first character is wider than the width (C4, C21); an
  output line holding a newline is drawn as more rows than it has visual lines, pushing the
  prompt out of a full viewport (C23); the width is clamped to 1 on an area with no inner
  column, so the cursor lands on or past the right border (C25).

  \<^bold>\<open>Plan.\<close>  Done: the Wrapper, the Layout Engine, the Cursor Mapper with the UTF-8
  byte offsets of its slice, the drawing entry point with the paragraph's text, and the
  status bar, with the properties above; the long proofs are split into the lemmas of
  their theories (\<open>char_cell_gaps\<close>, \<open>cursor_visual_pos_gaps\<close>, \<open>visible_lines_end\<close>,
  \<open>render_terminal_narrow_cell\<close>, \<open>str_lines_join_with\<close>).  Every line of the renderer
  that computes something is mapped; what remains outside is listed under
  \<^emph>\<open>Not modelled\<close>.  A further step would model ratatui's painting of a paragraph into
  the screen buffer, so that C28 and C32 speak of screen cells rather than rows.
\<close>

subsection \<open>Concrete inputs\<close>

definition area_hello :: rect where
  "area_hello = \<lparr>rect_x = 0, rect_y = 0, rect_width = 7, rect_height = 4\<rparr>"

definition inner_hello :: rect where
  "inner_hello = \<lparr>rect_x = 1, rect_y = 1, rect_width = 5, rect_height = 2\<rparr>"

definition app_hello :: "nat app" where
  "app_hello = \<lparr>output_lines = [ascii ''hello''], input = [], cursor_pos = 0,
                prompt = ascii ''> '', mode = Normal, current_dir = ''/home''\<rparr>"

definition digit_lines :: "nat list list" where
  "digit_lines = map (\<lambda>d. [48 + d]) [0..<10]"

definition app_embedded_newline :: "nat app" where
  "app_embedded_newline = \<lparr>output_lines = [[97, 10, 98]], input = [], cursor_pos = 0,
                           prompt = ascii ''> '', mode = Normal, current_dir = ''/home''\<rparr>"

definition area_narrow :: rect where
  "area_narrow = \<lparr>rect_x = 0, rect_y = 0, rect_width = 2, rect_height = 4\<rparr>"

definition app_prompt_only :: "nat app" where
  "app_prompt_only = \<lparr>output_lines = [], input = [], cursor_pos = 0,
                      prompt = ascii ''>'', mode = Normal, current_dir = ''/home''\<rparr>"

definition app_typing :: "nat app" where
  "app_typing = \<lparr>output_lines = [ascii ''hello''], input = ascii ''ab'', cursor_pos = 1,
                 prompt = ascii ''> '', mode = Normal, current_dir = ''/home''\<rparr>"

lemmas rect_eval = block_inner_def rect_right_def rect_bottom_def u16_saturating_add_def
  u16_saturating_sub_def

lemma block_inner_hello: "block_inner area_hello = inner_hello"
  by (simp add: area_hello_def inner_hello_def rect_eval)

lemma block_inner_narrow_area:
  "block_inner area_narrow = \<lparr>rect_x = 1, rect_y = 1, rect_width = 0, rect_height = 2\<rparr>"
  by (simp add: area_narrow_def rect_eval)

lemma block_inner_sliver:
  "block_inner (area_narrow\<lparr>rect_width := 1\<rparr>)
   = \<lparr>rect_x = 1, rect_y = 1, rect_width = 0, rect_height = 2\<rparr>"
  by (simp add: area_narrow_def rect_eval)

subsection \<open>Witnesses\<close>

text \<open>
  Each theorem with a hypothesis applied at a concrete input where the hypotheses hold,
  the model evaluated by the kernel's simplifier.
\<close>

theorem wrap_line_fits_witness:
  "list_all (line_fits demo_width 1) (wrap_line demo_width [20013, 97] 1)
   \<and> wrap_line demo_width [20013, 97] 1 = [[], [20013], [97]]"
  by (rule conjI [OF wrap_line_fits]) (simp add: model_eval)

theorem wrap_line_chars_witness:
  "0 < (5::nat) \<and> concat (wrap_line demo_width (ascii ''hello world'') 5) = ascii ''hello world''"
proof
  show "0 < (5::nat)" by simp
  then show "concat (wrap_line demo_width (ascii ''hello world'') 5) = ascii ''hello world''"
    by (rule wrap_line_chars)
qed

theorem wrap_line_breaks_forced_witness:
  "breaks_forced demo_width 5 (wrap_line demo_width (ascii ''hello world'') 5)
   \<and> wrap_line demo_width (ascii ''hello world'') 5 = [ascii ''hello'', ascii '' worl'', ascii ''d'']"
  by (rule conjI [OF wrap_line_breaks_forced]) (simp add: model_eval)

theorem wrap_line_first_empty_iff_witness:
  "0 < (1::nat) \<and> 1 < char_width demo_width 20013
   \<and> hd (wrap_line demo_width [20013, 97] 1) = []"
proof -
  have w: "1 < char_width demo_width 20013" by (simp add: model_eval)
  have "hd (wrap_line demo_width [20013, 97] 1) = []"
    using wrap_line_first_empty_iff [of 1 demo_width 20013 "[97]"] w by simp
  with w show ?thesis by simp
qed

theorem wrap_line_length_narrow_witness:
  "0 < (5::nat) \<and> list_all (\<lambda>c. char_width demo_width c = 1) (ascii ''hello world'')
   \<and> length (wrap_line demo_width (ascii ''hello world'') 5) = 3"
proof -
  have n: "list_all (\<lambda>c. char_width demo_width c = 1) (ascii ''hello world'')"
    by (simp add: model_eval)
  have "length (wrap_line demo_width (ascii ''hello world'') 5)
        = max 1 ((length (ascii ''hello world'') + 5 - 1) div 5)"
    by (rule wrap_line_length_narrow [OF _ n]) simp
  with n show ?thesis by simp
qed

theorem layout_visible_length_witness:
  "length (visible_lines (layout demo_width digit_lines [] [] 20 3))
     = min (total_visual_lines (layout demo_width digit_lines [] [] 20 3)) 3
   \<and> total_visual_lines (layout demo_width digit_lines [] [] 20 3) = 11"
  by (rule conjI [OF layout_visible_length]) (simp add: digit_lines_def model_eval upt_rec)

theorem layout_last_visible_witness:
  "0 < (3::nat) \<and> last (visible_lines (layout demo_width digit_lines [] [] 20 3)) = []"
proof -
  have "last (visible_lines (layout demo_width digit_lines [] [] 20 3))
        = last (wrap_line demo_width ([] @ []) 20)"
    by (rule layout_last_visible) simp
  then show ?thesis by (simp add: model_eval)
qed

theorem layout_chars_witness:
  "0 < (5::nat)
   \<and> concat (visual_lines (layout demo_width [ascii ''hello''] (ascii ''> '') (ascii ''abcdefgh'') 5 2))
     = ascii ''hello> abcdefgh''"
proof -
  have "concat (visual_lines (layout demo_width [ascii ''hello''] (ascii ''> '') (ascii ''abcdefgh'') 5 2))
        = concat [ascii ''hello''] @ ascii ''> '' @ ascii ''abcdefgh''"
    by (rule layout_chars) simp
  then show ?thesis by simp
qed

theorem layout_input_lines_witness:
  "drop (input_line_start (layout demo_width [ascii ''hello''] (ascii ''> '') (ascii ''abcdefgh'') 5 2))
        (visual_lines (layout demo_width [ascii ''hello''] (ascii ''> '') (ascii ''abcdefgh'') 5 2))
   = [ascii ''> abc'', ascii ''defgh'']"
  by (subst layout_input_lines) (simp add: model_eval)

theorem layout_all_visible_witness:
  "total_visual_lines (layout demo_width [ascii ''hello''] (ascii ''> '') [] 5 2) \<le> 2
   \<and> scroll (layout demo_width [ascii ''hello''] (ascii ''> '') [] 5 2) = 0
   \<and> visible_lines (layout demo_width [ascii ''hello''] (ascii ''> '') [] 5 2)
     = visual_lines (layout demo_width [ascii ''hello''] (ascii ''> '') [] 5 2)"
proof -
  have t: "total_visual_lines (layout demo_width [ascii ''hello''] (ascii ''> '') [] 5 2) \<le> 2"
    by (simp add: model_eval)
  show ?thesis using t layout_all_visible [OF t] by blast
qed

theorem map_cursor_refines_spec_witness:
  "1 \<le> cursor_line_absolute (cursor_geometry demo_width (ascii ''> '') (ascii ''abcdefgh'') 5 5 0 1)
   \<and> map_cursor demo_width (ascii ''> '') (ascii ''abcdefgh'') 5 5 0 1 1
     = spec_map_cursor demo_width (str_width demo_width (ascii ''> '')) (ascii ''abcdefgh'') 5 5 0 1 1
   \<and> map_cursor demo_width (ascii ''> '') (ascii ''abcdefgh'') 5 5 0 1 1 = Some (2, 0)"
proof -
  have a: "1 \<le> cursor_line_absolute (cursor_geometry demo_width (ascii ''> '') (ascii ''abcdefgh'') 5 5 0 1)"
    by (simp add: model_eval)
  have m: "map_cursor demo_width (ascii ''> '') (ascii ''abcdefgh'') 5 5 0 1 1 = Some (2, 0)"
    by (simp add: model_eval)
  show ?thesis using a m map_cursor_refines_spec [OF a, of 1] by simp
qed

theorem map_cursor_above_viewport_witness:
  "cursor_line_absolute (cursor_geometry demo_width (ascii ''> '') (ascii ''abcdefgh'') 0 5 0 1) < 1
   \<and> 0 < (1::nat)
   \<and> map_cursor demo_width (ascii ''> '') (ascii ''abcdefgh'') 0 5 0 1 1 = Some (2, 0)
   \<and> spec_map_cursor demo_width (str_width demo_width (ascii ''> '')) (ascii ''abcdefgh'') 0 5 0 1 1 = None"
proof -
  have a: "cursor_line_absolute (cursor_geometry demo_width (ascii ''> '') (ascii ''abcdefgh'') 0 5 0 1) < 1"
    by (simp add: model_eval)
  have x: "cursor_x_offset (cursor_geometry demo_width (ascii ''> '') (ascii ''abcdefgh'') 0 5 0 1) = 2"
    by (simp add: model_eval)
  show ?thesis using a x map_cursor_above_viewport [OF a, of 1] by simp
qed

theorem cursor_geometry_narrow_witness:
  "0 < (5::nat) \<and> list_all (\<lambda>c. char_width demo_width c = 1) (ascii ''> abc'')
   \<and> (cursor_line_offset (cursor_geometry demo_width (ascii ''> '') (ascii ''abc'') 1 5 0 0),
      cursor_x_offset (cursor_geometry demo_width (ascii ''> '') (ascii ''abc'') 1 5 0 0))
     = cursor_cell demo_width 5 (ascii ''> abc'') 3
   \<and> cursor_cell demo_width 5 (ascii ''> abc'') 3 = (0, 3)"
proof -
  have n: "list_all (\<lambda>c. char_width demo_width c = 1) (ascii ''> '' @ ascii ''abc'')"
    by (simp add: model_eval)
  have idx: "length (ascii ''> '') + min 1 (length (ascii ''abc'')) = 3" by simp
  have app: "ascii ''> '' @ ascii ''abc'' = ascii ''> abc''" by simp
  have "(cursor_line_offset (cursor_geometry demo_width (ascii ''> '') (ascii ''abc'') 1 5 0 0),
         cursor_x_offset (cursor_geometry demo_width (ascii ''> '') (ascii ''abc'') 1 5 0 0))
        = cursor_cell demo_width 5 (ascii ''> abc'') 3"
    by (rule cursor_geometry_narrow [OF _ n, where k = 1, unfolded idx app]) simp
  moreover have "cursor_cell demo_width 5 (ascii ''> abc'') 3 = (0, 3)"
    by (simp add: model_eval)
  ultimately show ?thesis using n by simp
qed

theorem map_cursor_visible_row_witness:
  "0 < (5::nat)
   \<and> map_cursor demo_width (ascii ''> '') [] 0 5 1 0 2 = Some (2, 1)
   \<and> map_cursor demo_width (ascii ''> '') (ascii ''abcdefgh'') 8 5 0 0 2 = None"
proof -
  let ?g1 = "cursor_geometry demo_width (ascii ''> '') [] 0 5 1 0"
  let ?g2 = "cursor_geometry demo_width (ascii ''> '') (ascii ''abcdefgh'') 8 5 0 0"
  have g1: "cursor_line_absolute ?g1 = 1" "cursor_x_offset ?g1 = 2" by (simp_all add: model_eval)
  have g2: "cursor_line_absolute ?g2 = 2" by (simp add: model_eval)
  have "map_cursor demo_width (ascii ''> '') [] 0 5 1 0 2 = Some (2, 1)"
    using map_cursor_visible_row [where width = 5 and cw = demo_width and prompt = "ascii ''> ''"
        and input = "[]" and k = 0 and s = 1 and sc = 0 and h = 2] g1 by simp
  moreover have "map_cursor demo_width (ascii ''> '') (ascii ''abcdefgh'') 8 5 0 0 2 = None"
    using map_cursor_visible_row [where width = 5 and cw = demo_width and prompt = "ascii ''> ''"
        and input = "ascii ''abcdefgh''" and k = 8 and s = 0 and sc = 0 and h = 2] g2
    by simp
  ultimately show ?thesis by simp
qed

theorem map_cursor_hidden_past_last_row_witness:
  "cursor_line_offset (cursor_geometry demo_width (ascii ''> '') (ascii ''abc'') 3 5 0 0)
     = length (wrap_line demo_width (ascii ''> '' @ ascii ''abc'') 5)
   \<and> 2 \<le> total_visual_lines (layout demo_width [ascii ''hello''] (ascii ''> '') (ascii ''abc'') 5 2)
   \<and> map_cursor demo_width (ascii ''> '') (ascii ''abc'') 3 5
       (input_line_start (layout demo_width [ascii ''hello''] (ascii ''> '') (ascii ''abc'') 5 2))
       (scroll (layout demo_width [ascii ''hello''] (ascii ''> '') (ascii ''abc'') 5 2)) 2 = None"
proof -
  have o: "cursor_line_offset (cursor_geometry demo_width (ascii ''> '') (ascii ''abc'') 3 5 0 0)
           = length (wrap_line demo_width (ascii ''> '' @ ascii ''abc'') 5)"
    by (simp add: model_eval)
  have t: "2 \<le> total_visual_lines (layout demo_width [ascii ''hello''] (ascii ''> '') (ascii ''abc'') 5 2)"
    by (simp add: model_eval)
  show ?thesis using o t map_cursor_hidden_past_last_row [OF o t] by blast
qed

theorem input_before_cursor_clamp_witness:
  "input_before_cursor (ascii ''abc'') 7 = ascii ''abc''
   \<and> input_before_cursor (ascii ''abc'') 2 = ascii ''ab''"
  by (simp add: input_before_cursor_clamp)

theorem render_terminal_cursor_inside_witness:
  "fits area_hello \<and> 0 < unat (rect_width (block_inner area_hello))
   \<and> frame_cursor (render_terminal demo_width 10 13 [] area_hello app_hello) = Some (3, 2)
   \<and> unat (rect_x (block_inner area_hello)) \<le> unat (3::u16)
   \<and> unat (3::u16) < unat (rect_x (block_inner area_hello)) + unat (rect_width (block_inner area_hello))
   \<and> unat (rect_y (block_inner area_hello)) \<le> unat (2::u16)
   \<and> unat (2::u16) < unat (rect_y (block_inner area_hello)) + unat (rect_height (block_inner area_hello))"
proof -
  have f: "fits area_hello" by (simp add: area_hello_def model_eval)
  have w: "0 < unat (rect_width (block_inner area_hello))"
    by (simp add: block_inner_hello inner_hello_def)
  have c: "frame_cursor (render_terminal demo_width 10 13 [] area_hello app_hello) = Some (3, 2)"
    by (simp add: block_inner_hello app_hello_def inner_hello_def model_eval)
  show ?thesis using f w c render_terminal_cursor_inside [OF f w c] by blast
qed

theorem render_terminal_no_overflow_witness:
  "fits area_hello
   \<and> list_all (\<lambda>c. char_width demo_width c \<le> term_width area_hello) (prompt app_hello @ input app_hello)
   \<and> unat (rect_y (block_inner area_hello))
       + cursor_line_visible (term_cursor demo_width area_hello app_hello) = 2"
proof -
  have f: "fits area_hello" by (simp add: area_hello_def model_eval)
  have l: "list_all (\<lambda>c. char_width demo_width c \<le> term_width area_hello)
             (prompt app_hello @ input app_hello)"
    by (simp add: block_inner_hello app_hello_def inner_hello_def model_eval)
  have "unat (rect_y (block_inner area_hello))
          + cursor_line_visible (term_cursor demo_width area_hello app_hello) < 65536"
    using render_terminal_no_overflow [OF f l] by blast
  moreover have "unat (rect_y (block_inner area_hello))
          + cursor_line_visible (term_cursor demo_width area_hello app_hello) = 2"
    by (simp add: block_inner_hello app_hello_def inner_hello_def model_eval)
  ultimately show ?thesis using f l by blast
qed

theorem wrap_line_eq_greedy_witness:
  "0 < (1::nat)
   \<and> wrap_line demo_width [20013, 97] 1 = [] # greedy_lines demo_width 1 [20013, 97]
   \<and> greedy_lines demo_width 1 [20013, 97] = [[20013], [97]]"
proof -
  have w: "1 < char_width demo_width 20013" by (simp add: model_eval)
  have "wrap_line demo_width [20013, 97] 1 =
          (if [20013, 97::nat] \<noteq> [] \<and> 1 < char_width demo_width (hd [20013, 97])
           then [] # greedy_lines demo_width 1 [20013, 97] else greedy_lines demo_width 1 [20013, 97])"
    by (rule wrap_line_eq_greedy) simp
  moreover have "greedy_lines demo_width 1 [20013, 97] = [[20013], [97]]"
    by (simp add: model_eval)
  ultimately show ?thesis using w by simp
qed

theorem render_terminal_rows_witness:
  "list_all (\<lambda>l. (10::nat) \<notin> set l \<and> 13 \<notin> set l) (output_lines app_hello)
   \<and> 10 \<notin> set (prompt app_hello @ input app_hello)
   \<and> 13 \<notin> set (prompt app_hello @ input app_hello)
   \<and> term_rows demo_width 10 13 area_hello app_hello = [ascii ''hello'', ascii ''> '']"
proof -
  have a: "list_all (\<lambda>l. (10::nat) \<notin> set l \<and> 13 \<notin> set l) (output_lines app_hello)"
    and b: "10 \<notin> set (prompt app_hello @ input app_hello)"
    and c: "13 \<notin> set (prompt app_hello @ input app_hello)"
    by (simp_all add: app_hello_def)
  have "visible_lines (term_layout demo_width area_hello app_hello) = [ascii ''hello'', ascii ''> '']"
    by (simp add: block_inner_hello app_hello_def inner_hello_def model_eval)
  then show ?thesis using a b c render_terminal_rows [OF a b c, of demo_width area_hello] by simp
qed

theorem wrap_line_contract_witness:
  "0 < (2::nat)
   \<and> wrap_contract demo_width 2 (ascii ''abc'') [ascii ''ab'', ascii ''c'']
   \<and> \<not> wrap_contract demo_width 2 (ascii ''abc'') [ascii ''a'', ascii ''bc'']"
proof -
  have "wrap_contract demo_width 2 (ascii ''abc'') ls
        \<longleftrightarrow> ls = [ascii ''ab'', ascii ''c'']" for ls
    using wrap_line_contract [of 2 demo_width "ascii ''abc''" ls] by (simp add: model_eval)
  then show ?thesis by simp
qed

theorem render_terminal_narrow_cursor_witness:
  "fits area_narrow \<and> 0 < unat (rect_width area_narrow) \<and> unat (rect_width area_narrow) < 3
   \<and> frame_cursor (render_terminal demo_width 10 13 [] area_narrow app_prompt_only) = Some (1, 2)
   \<and> unat (1::u16) = unat (rect_x area_narrow) + 1
   \<and> unat (rect_x area_narrow) + unat (rect_width area_narrow) \<le> unat (1::u16) + 1"
proof -
  have a: "fits area_narrow" "0 < unat (rect_width area_narrow)" "unat (rect_width area_narrow) < 3"
    by (simp_all add: area_narrow_def fits_def)
  have f: "frame_cursor (render_terminal demo_width 10 13 [] area_narrow app_prompt_only) = Some (1, 2)"
    by (simp add: block_inner_narrow_area app_prompt_only_def model_eval)
  show ?thesis using render_terminal_narrow_cursor [OF a f] a f by simp
qed

theorem render_terminal_flat_area_witness:
  "unat (rect_height (area_hello\<lparr>rect_height := 2\<rparr>)) < 3
   \<and> render_terminal demo_width 10 13 [] (area_hello\<lparr>rect_height := 2\<rparr>) app_hello =
       [RenderWidget terminal_block (area_hello\<lparr>rect_height := 2\<rparr>),
        RenderWidget (TextParagraph [[]]) (block_inner (area_hello\<lparr>rect_height := 2\<rparr>))]"
proof -
  have a: "unat (rect_height (area_hello\<lparr>rect_height := 2\<rparr>)) < 3" by simp
  show ?thesis using render_terminal_flat_area [OF a, of demo_width 10 13 "[]" app_hello] a by simp
qed

theorem render_terminal_rows_newlines_witness:
  "visible_lines (term_layout demo_width area_hello app_embedded_newline) = [[97, 10, 98], ascii ''> '']
   \<and> term_height area_hello = 2
   \<and> length (term_rows demo_width 10 13 area_hello app_embedded_newline) = 3
   \<and> term_height area_hello < length (term_rows demo_width 10 13 area_hello app_embedded_newline)"
proof -
  have v: "visible_lines (term_layout demo_width area_hello app_embedded_newline)
           = [[97, 10, 98], ascii ''> '']"
    by (simp add: block_inner_hello app_embedded_newline_def inner_hello_def model_eval)
  have h: "term_height area_hello = 2"
    by (simp add: block_inner_hello inner_hello_def)
  have t: "total_visual_lines (term_layout demo_width area_hello app_embedded_newline) = 2"
    by (simp add: block_inner_hello app_embedded_newline_def inner_hello_def model_eval)
  have "length (term_rows demo_width 10 13 area_hello app_embedded_newline) = 2 + 1
        \<and> (10 \<in> set (concat [[97, 10, 98], ascii ''> '']) \<and> 2 \<le> (2::nat)
           \<longrightarrow> 2 < length (term_rows demo_width 10 13 area_hello app_embedded_newline))"
    using render_terminal_rows_newlines [where cw = demo_width and area = area_hello
        and app = app_embedded_newline and nl = 10 and cr = 13] v h t
    by simp
  then show ?thesis using v h by simp
qed

theorem input_before_cursor_bytes_refines_witness:
  "0 < utf8_len 104 \<and> 0 < utf8_len 233 \<and> 0 < utf8_len 20013
   \<and> input_before_cursor_bytes utf8_len [104, 233, 20013] 2 = Some [104, 233]
   \<and> str_slice_to utf8_len [104, 233, 20013] 2 = None"
proof -
  have a: "\<forall>c \<in> set [104, 233, 20013::nat]. 0 < utf8_len c" by (simp add: utf8_len_def)
  have "input_before_cursor_bytes utf8_len [104, 233, 20013::nat] 2 = Some [104, 233]"
    using input_before_cursor_bytes_refines [OF a, of 2] by (simp add: input_before_cursor_take)
  moreover have "str_slice_to utf8_len [104, 233, 20013::nat] 2 = None"
    by (simp add: model_eval)
  ultimately show ?thesis by (simp add: utf8_len_def)
qed

theorem render_terminal_cursor_on_char_witness:
  "frame_cursor (render_terminal demo_width 10 13 [] area_hello app_typing) = Some (4, 2)
   \<and> term_rows demo_width 10 13 area_hello app_typing ! 1 ! 3 = of_char CHR ''b''"
proof -
  have f: "fits area_hello" by (simp add: area_hello_def fits_def)
  have b: "list_all (\<lambda>l. (10::nat) \<notin> set l \<and> 13 \<notin> set l) (output_lines app_typing)"
    "10 \<notin> set (prompt app_typing @ input app_typing)"
    "13 \<notin> set (prompt app_typing @ input app_typing)"
    by (simp_all add: app_typing_def)
  have n: "list_all (\<lambda>c. char_width demo_width c = 1) (prompt app_typing @ input app_typing)"
    by (simp add: app_typing_def model_eval)
  have k: "cursor_pos app_typing < length (input app_typing)" by (simp add: app_typing_def)
  have r: "scroll (term_layout demo_width area_hello app_typing)
           \<le> cursor_line_absolute (term_cursor demo_width area_hello app_typing)"
    by (simp add: block_inner_hello app_typing_def inner_hello_def model_eval)
  have s: "frame_cursor (render_terminal demo_width 10 13 [] area_hello app_typing) = Some (4, 2)"
    by (simp add: block_inner_hello app_typing_def inner_hello_def model_eval)
  have i: "unat (rect_y (block_inner area_hello)) = 1" "unat (rect_x (block_inner area_hello)) = 1"
    by (simp_all add: block_inner_hello inner_hello_def)
  show ?thesis
    using render_terminal_cursor_on_char [OF f b n k r s] s i by (simp add: app_typing_def)
qed

theorem cursor_row_not_below_char_witness:
  "0 < (3::nat) \<and> list_all (\<lambda>c. char_width demo_width c \<le> 3) ([] @ [20013, 20013::nat])
   \<and> 1 < length [20013, 20013::nat] \<and> 0 < char_width demo_width ([20013, 20013::nat] ! 1)
   \<and> cursor_line_offset (cursor_geometry demo_width [] [20013, 20013] 1 3 0 0) = 0
   \<and> fst (cursor_cell demo_width 3 ([] @ [20013, 20013]) (length ([]::nat list) + 1)) = 1"
proof -
  have h: "0 < (3::nat)" "list_all (\<lambda>c. char_width demo_width c \<le> 3) ([] @ [20013, 20013::nat])"
    "1 < length [20013, 20013::nat]" "0 < char_width demo_width ([20013, 20013::nat] ! 1)"
    by (simp_all add: model_eval)
  have "cursor_line_offset (cursor_geometry demo_width [] [20013, 20013] 1 3 0 0)
        \<le> fst (cursor_cell demo_width 3 ([] @ [20013, 20013]) (length ([]::nat list) + 1))"
    by (rule cursor_row_not_below_char [OF h])
  moreover have "cursor_line_offset (cursor_geometry demo_width [] [20013, 20013::nat] 1 3 0 0) = 0"
    "fst (cursor_cell demo_width 3 ([] @ [20013, 20013::nat]) (length ([]::nat list) + 1)) = 1"
    by (simp_all add: model_eval input_before_cursor_take)
  ultimately show ?thesis using h by simp
qed

theorem render_terminal_within_area_witness:
  "fits area_hello \<and> 3 \<le> unat (rect_width area_hello)
   \<and> frame_within area_hello (render_terminal demo_width 10 13 [] area_hello app_hello)
   \<and> \<not> frame_within (area_narrow\<lparr>rect_width := 1\<rparr>)
         (render_terminal demo_width 10 13 [] (area_narrow\<lparr>rect_width := 1\<rparr>) app_prompt_only)"
proof -
  have a: "fits area_hello" "3 \<le> unat (rect_width area_hello)"
    by (simp_all add: area_hello_def fits_def)
  have "render_terminal demo_width 10 13 [] (area_narrow\<lparr>rect_width := 1\<rparr>) app_prompt_only =
          [RenderWidget terminal_block (area_narrow\<lparr>rect_width := 1\<rparr>),
           RenderWidget (TextParagraph [ascii ''>''])
             \<lparr>rect_x = 1, rect_y = 1, rect_width = 0, rect_height = 2\<rparr>,
           SetCursor 1 2]" (is "?r = _")
    by (simp add: block_inner_sliver app_prompt_only_def model_eval)
  have "\<not> frame_within (area_narrow\<lparr>rect_width := 1\<rparr>) ?r"
    by (subst \<open>?r = _\<close>) (simp add: area_narrow_def model_eval)
  then show ?thesis using a render_terminal_within_area [OF a] by simp
qed

theorem cursor_column_gaps_witness:
  "0 < (3::nat) \<and> list_all (\<lambda>c. char_width demo_width c \<le> 3) ([] @ [20013, 20013::nat])
   \<and> 1 < length [20013, 20013::nat] \<and> 0 < char_width demo_width ([20013, 20013::nat] ! 1)
   \<and> cursor_visual_pos (cursor_geometry demo_width [] [20013, 20013] 1 3 0 0)
       + row_gaps demo_width 3 ([] @ [20013, 20013]) (length ([]::nat list) + 1) = 1 * 3 + 0
   \<and> cursor_cell demo_width 3 ([] @ [20013, 20013]) (length ([]::nat list) + 1) = (1, 0)
   \<and> row_gaps demo_width 3 ([] @ [20013, 20013]) (length ([]::nat list) + 1) \<noteq> 0"
proof -
  have h: "0 < (3::nat)" "list_all (\<lambda>c. char_width demo_width c \<le> 3) ([] @ [20013, 20013::nat])"
    "1 < length [20013, 20013::nat]" "0 < char_width demo_width ([20013, 20013::nat] ! 1)"
    by (simp_all add: model_eval)
  have c: "cursor_cell demo_width 3 ([] @ [20013, 20013::nat]) (length ([]::nat list) + 1) = (1, 0)"
    by (simp add: model_eval)
  have g: "(cursor_line_offset (cursor_geometry demo_width [] [20013, 20013::nat] 1 3 0 0),
            cursor_x_offset (cursor_geometry demo_width [] [20013, 20013::nat] 1 3 0 0)) = (0, 2)"
    by (simp add: model_eval input_before_cursor_take)
  show ?thesis using cursor_column_gaps [OF h, of 0 0] h c g by simp
qed

theorem render_terminal_cursor_at_end_witness:
  "frame_cursor (render_terminal demo_width 10 13 [] area_hello app_hello) = Some (3, 2)
   \<and> term_rows demo_width 10 13 area_hello app_hello = [ascii ''hello'', ascii ''> '']
   \<and> Suc (unat (2::u16) - 1) = 2 \<and> unat (3::u16) - 1 = length (ascii ''> '')"
proof -
  have f: "fits area_hello" by (simp add: area_hello_def fits_def)
  have b: "list_all (\<lambda>l. (10::nat) \<notin> set l \<and> 13 \<notin> set l) (output_lines app_hello)"
    "10 \<notin> set (prompt app_hello @ input app_hello)"
    "13 \<notin> set (prompt app_hello @ input app_hello)"
    by (simp_all add: app_hello_def)
  have n: "list_all (\<lambda>c. char_width demo_width c = 1) (prompt app_hello @ input app_hello)"
    by (simp add: app_hello_def model_eval)
  have k: "length (input app_hello) \<le> cursor_pos app_hello" by (simp add: app_hello_def)
  have r: "scroll (term_layout demo_width area_hello app_hello)
           \<le> cursor_line_absolute (term_cursor demo_width area_hello app_hello)"
    by (simp add: block_inner_hello app_hello_def inner_hello_def model_eval)
  have s: "frame_cursor (render_terminal demo_width 10 13 [] area_hello app_hello) = Some (3, 2)"
    by (simp add: block_inner_hello app_hello_def inner_hello_def model_eval)
  have rows: "term_rows demo_width 10 13 area_hello app_hello = [ascii ''hello'', ascii ''> '']"
    by (simp add: block_inner_hello app_hello_def inner_hello_def model_eval)
  have i: "unat (rect_y (block_inner area_hello)) = 1" "unat (rect_x (block_inner area_hello)) = 1"
    by (simp_all add: block_inner_hello inner_hello_def)
  have "(Suc (unat (2::u16) - 1) = 2 \<and> unat (3::u16) - 1 = length ([ascii ''hello'', ascii ''> ''] ! (unat (2::u16) - 1)))
        \<or> (unat (2::u16) - 1 = 2 \<and> unat (3::u16) - 1 = 0)"
    using render_terminal_cursor_at_end [OF f b n k r s] rows i by simp
  then show ?thesis using s rows by simp
qed

end
